theory Spec2Isabelle
  imports Complex_Main "HOL-Library.Log_Nat"
begin

section \<open>The chunk planner of \<open>uploadFile\<close>\<close>

text \<open>
  \<^verbatim>\<open>const CHUNK_SIZE = 5 * 1024 * 1024; // 5MB\<close>
\<close>

definition CHUNK_SIZE :: nat where
  "CHUNK_SIZE = 5 * 1024 * 1024"

text \<open>
  \<^verbatim>\<open>const totalChunks = Math.ceil(file.size / CHUNK_SIZE);\<close>

  \<open>file.size\<close> is a non-negative integer; the quotient is taken in exact arithmetic.
  (For the sizes that pass \<open>handleFile\<close>, at most \<open>2^31\<close>, the IEEE double quotient
  rounds to an integer only when the exact quotient is one, so \<open>Math.ceil\<close> of the double
  is the exact ceiling.)
\<close>

definition totalChunks :: "nat \<Rightarrow> nat" where
  "totalChunks fsize = nat \<lceil>real fsize / real CHUNK_SIZE\<rceil>"

text \<open>
  One iteration of the loop computes the byte range and the 1-based number of part \<open>i\<close>:
  \<^verbatim>\<open>
  const start = i * CHUNK_SIZE;
  const end = Math.min(start + CHUNK_SIZE, file.size);
  const chunk = file.slice(start, end);
  const partNumber = i + 1;
  \<close>
\<close>

record chunk =
  partNumber :: nat
  start :: nat
  endpos :: nat

definition chunk_of :: "nat \<Rightarrow> nat \<Rightarrow> chunk" where
  "chunk_of fsize i =
     (let start = i * CHUNK_SIZE;
          end' = min (start + CHUNK_SIZE) fsize
      in \<lparr>partNumber = i + 1, start = start, endpos = end'\<rparr>)"

text \<open>
  \<^verbatim>\<open>for (let i = 0; i < totalChunks; i++)\<close>: the chunks of all iterations, in the order of
  the index. The loop itself, with its calls, is \<open>upload_loop\<close> below: it computes
  \<open>chunk_of\<close> in each iteration it reaches. The list \<open>chunk_plan\<close> is a notion of this theory,
  used to say which chunks a run of \<open>uploadFile\<close> hands to \<open>PUT\<close>.
\<close>

function chunks_from :: "nat \<Rightarrow> nat \<Rightarrow> chunk list" where
  "chunks_from fsize i =
     (if i < totalChunks fsize then chunk_of fsize i # chunks_from fsize (i + 1) else [])"
  by pat_completeness auto
termination
  by (relation "measure (\<lambda>(fsize, i). totalChunks fsize - i)") auto

declare chunks_from.simps [simp del]

definition chunk_plan :: "nat \<Rightarrow> chunk list" where
  "chunk_plan fsize = chunks_from fsize 0"

section \<open>JavaScript values, exceptions and awaited results\<close>

text \<open>
  What \<open>response.json()\<close> yields and what a property read on it yields. \<open>JUndefined\<close> is
  the result of reading a property that is absent; it never occurs inside a parsed body.
  Numbers are restricted to integers: the uploader only tests them for truthiness and
  prints them.
\<close>

datatype jsval =
    JUndefined
  | JNull
  | JBool bool
  | JNum int
  | JStr string
  | JArr "jsval list"
  | JObj "(string \<times> jsval) list"

text \<open>The values that \<open>!v\<close> and \<open>v || w\<close> treat as true.\<close>

fun truthy :: "jsval \<Rightarrow> bool" where
  "truthy JUndefined = False"
| "truthy JNull = False"
| "truthy (JBool b) = b"
| "truthy (JNum n) = (n \<noteq> 0)"
| "truthy (JStr s) = (s \<noteq> [])"
| "truthy (JArr xs) = True"
| "truthy (JObj kvs) = True"

text \<open>\<open>a || b\<close>\<close>

definition or_else :: "jsval \<Rightarrow> jsval \<Rightarrow> jsval" where
  "or_else a b = (if truthy a then a else b)"

text \<open>
  An exception: \<open>new Error(message)\<close> (also a rejected \<open>fetch\<close> or \<open>json()\<close>, which carry a
  message of the engine's), or the \<open>TypeError\<close> the engine throws when a property of
  \<open>null\<close> or \<open>undefined\<close> is read.
\<close>

datatype exn = Error string | TypeError

text \<open>\<open>err.message\<close>; the text of an engine \<open>TypeError\<close> differs between engines and is never empty.\<close>

fun message :: "exn \<Rightarrow> string" where
  "message (Error m) = m"
| "message TypeError = ''TypeError: cannot read properties of null or undefined''"

text \<open>
  \<open>v.key\<close>, and the destructuring \<open>const { key } = v\<close>, for the keys the uploader reads
  (\<open>uploadId\<close>, \<open>url\<close>, \<open>taskId\<close>, \<open>error\<close>, \<open>state\<close>, \<open>info\<close>, \<open>status\<close>): a \<open>TypeError\<close> on \<open>null\<close>
  and \<open>undefined\<close>, the member's value on an object (the last one when the body repeats a
  key, as \<open>JSON.parse\<close> keeps it), \<open>undefined\<close> on an object without the key and on
  booleans, numbers, strings and arrays.
\<close>

fun get_prop :: "jsval \<Rightarrow> string \<Rightarrow> exn + jsval" where
  "get_prop JUndefined key = Inl TypeError"
| "get_prop JNull key = Inl TypeError"
| "get_prop (JObj kvs) key =
     (case map_of (rev kvs) key of None \<Rightarrow> Inr JUndefined | Some v \<Rightarrow> Inr v)"
| "get_prop v key = Inr JUndefined"

text \<open>Decimal digits of a natural number, as a template literal prints \<open>partNumber\<close> and \<open>Date.now()\<close>.\<close>

text \<open>\<open>digit\<close> is only applied to a remainder modulo 10.\<close>

definition digit :: "nat \<Rightarrow> char" where
  "digit d = ''0123456789'' ! d"

function decimal :: "nat \<Rightarrow> string" where
  "decimal n = (if 10 \<le> n then decimal (n div 10) else []) @ [digit (n mod 10)]"
  by pat_completeness auto
termination
  by (relation "measure id") auto

declare decimal.simps [simp del]

text \<open>A number prints with its sign.\<close>

definition decimal_int :: "int \<Rightarrow> string" where
  "decimal_int i = (if 0 \<le> i then decimal (nat i) else CHR ''-'' # decimal (nat (- i)))"

definition join_comma :: "string list \<Rightarrow> string" where
  "join_comma xs = concat (case xs of [] \<Rightarrow> [] | y # ys \<Rightarrow> y # map (\<lambda>s. '','' @ s) ys)"

text \<open>
  \<open>String(v)\<close>, as a template literal and \<open>new Error(v)\<close> apply it: an array joins its
  elements with commas (\<open>null\<close> and \<open>undefined\<close> elements print as nothing).
\<close>

fun to_string :: "jsval \<Rightarrow> string" where
  "to_string JUndefined = ''undefined''"
| "to_string JNull = ''null''"
| "to_string (JBool b) = (if b then ''true'' else ''false'')"
| "to_string (JNum n) = decimal_int n"
| "to_string (JStr s) = s"
| "to_string (JArr xs) =
     join_comma (map (\<lambda>x. if x = JNull \<or> x = JUndefined then [] else to_string x) xs)"
| "to_string (JObj kvs) = ''[object Object]''"

text \<open>\<open>Object.is\<close> on a state value and one read from a newly parsed body: arrays and objects
  of a new body are new references.\<close>

fun same_value :: "jsval \<Rightarrow> jsval \<Rightarrow> bool" where
  "same_value a (JArr xs) = False"
| "same_value a (JObj kvs) = False"
| "same_value a b = (a = b)"

text \<open>\<open>s.startsWith(p)\<close>\<close>

definition startsWith :: "string \<Rightarrow> string \<Rightarrow> bool" where
  "startsWith s p = (take (length p) s = p)"

section \<open>Numbers: IEEE 754 doubles\<close>

text \<open>
  A JavaScript number is a binary64 double. A finite double is held here as the real number
  it denotes, and an arithmetic operation of the code is the exact operation followed by
  \<open>dbl\<close>, the rounding to the nearest double, ties to the even significand. \<open>dbl\<close> is
  that rounding for the magnitudes in the normal range of binary64, from \<open>2 powi -1022\<close>
  up to \<open>2 powi 1024\<close>: overflow and subnormal numbers are not modelled. Every number that
  the progress of an upload passes through is in that range.
\<close>

text \<open>The integer nearest to \<open>y\<close>, the even one of the two when \<open>y\<close> lies halfway.\<close>

definition round_half_even :: "real \<Rightarrow> int" where
  "round_half_even y =
     (let f = \<lfloor>y\<rfloor>; r = y - of_int f
      in if r < 1 / 2 then f else if 1 / 2 < r then f + 1 else if even f then f else f + 1)"

text \<open>The binary exponent of a positive number \<open>x\<close>: the \<open>e\<close> with \<open>2 powi e \<le> x < 2 powi (e + 1)\<close>.\<close>

definition exponent :: "real \<Rightarrow> int" where
  "exponent x =
     (if 1 \<le> x then int (floorlog 2 (nat \<lfloor>x\<rfloor>)) - 1
      else - int (floorlog 2 (nat \<lceil>1 / x\<rceil> - 1)))"

text \<open>
  Rounding to a significand of 53 bits: the doubles between \<open>2 powi e\<close> and \<open>2 powi (e + 1)\<close>
  are the multiples of \<open>2 powi (e - 52)\<close>.
\<close>

definition dbl :: "real \<Rightarrow> real" where
  "dbl x =
     (if x = 0 then 0
      else let ulp = 2 powi (exponent \<bar>x\<bar> - 52)
           in sgn x * of_int (round_half_even (\<bar>x\<bar> / ulp)) * ulp)"

section \<open>The component's state and the calls it issues\<close>

text \<open>The \<open>File\<close> the user selected: \<open>type\<close>, \<open>size\<close>, \<open>name\<close>.\<close>

record File =
  file_type :: string
  file_size :: nat
  file_name :: string

text \<open>
  Every \<open>fetch\<close> the component issues, with what the request carries:
  \<^item> \<open>POST /api/upload/initialize {objectKey}\<close>
  \<^item> \<open>POST /api/upload/part {objectKey, uploadId, partNumber}\<close>
  \<^item> \<open>PUT url\<close> with body \<open>file.slice(start, end)\<close>
  \<^item> \<open>POST /api/upload/complete {objectKey, uploadId, parts}\<close>, each part \<open>{PartNumber, ETag}\<close>
  \<^item> \<open>GET /api/upload/status/${taskId}\<close>
\<close>

datatype request =
    InitRequest string
  | PartRequest string jsval nat
  | PutRequest jsval chunk
  | CompleteRequest string jsval "(nat \<times> string) list"
  | StatusRequest jsval

text \<open>
  The \<open>useState\<close> cells of \<open>VideoUploader\<close> that the upload and the poller touch
  (\<open>file_sel\<close> is the cell \<open>file\<close>), and two
  fields that record effects: \<open>polling\<close> holds while the interval set by the effect on
  \<open>taskId\<close> has not been cleared, and \<open>requests\<close> lists the calls issued so far, oldest
  first. \<open>progress\<close> is a double, held as the real number it denotes.
\<close>

record state =
  file_sel :: "File option"
  error :: "string option"
  uploading :: bool
  progress :: real
  taskId :: jsval
  processingStatus :: jsval
  polling :: bool
  requests :: "request list"

text \<open>
  \<open>setTaskId(v)\<close> with the effect \<open>useEffect(..., [taskId])\<close>: when the value changes, the
  cleanup clears the running interval, and a new interval starts unless \<open>!taskId\<close>.
\<close>

definition setTaskId :: "jsval \<Rightarrow> state \<Rightarrow> state" where
  "setTaskId v st =
     st\<lparr>taskId := v,
        polling := (if same_value (taskId st) v then polling st else truthy v)\<rparr>"

section \<open>\<open>handleFile\<close>\<close>

text \<open>
  \<^verbatim>\<open>
  if (!selectedFile.type.startsWith('video/')) {
    setError('Invalid file type. Please select a video file.'); setFile(null); return;
  }
  if (selectedFile.size > 2 * 1024 * 1024 * 1024) {
    setError('File is too large. The maximum file size is 2GB.'); setFile(null); return;
  }
  setError(null); setFile(selectedFile); setProgress(0); setTaskId(null); setProcessingStatus(null);
  \<close>
  It issues no call: \<open>requests\<close> is left as it is.
\<close>

definition handleFile :: "File \<Rightarrow> state \<Rightarrow> state" where
  "handleFile selectedFile st =
     (if \<not> startsWith (file_type selectedFile) ''video/'' then
        st\<lparr>error := Some ''Invalid file type. Please select a video file.'', file_sel := None\<rparr>
      else if file_size selectedFile > 2 * 1024 * 1024 * 1024 then
        st\<lparr>error := Some ''File is too large. The maximum file size is 2GB.'', file_sel := None\<rparr>
      else
        (setTaskId JNull (st\<lparr>error := None, file_sel := Some selectedFile, progress := 0\<rparr>))
          \<lparr>processingStatus := JNull\<rparr>)"

section \<open>The status poller\<close>

text \<open>
  The body of the interval callback after \<open>const data = await response.json()\<close>. A
  \<open>TypeError\<close> leaves the callback before any state is set and before \<open>clearInterval\<close>.
  \<^verbatim>\<open>
  if (data.state === 'PROGRESS') {
    setProcessingStatus(data.info.status || 'Processing...');
  } else if (data.state === 'SUCCESS') {
    setProcessingStatus('Processing complete!');
    clearInterval(interval);
  } else if (data.state === 'FAILURE') {
    setProcessingStatus(`Processing failed: ${data.info.status || 'Unknown error'}`);
    clearInterval(interval);
  }
  \<close>
\<close>

definition on_status :: "jsval \<Rightarrow> state \<Rightarrow> exn + state" where
  "on_status data st =
     (case get_prop data ''state'' of
        Inl ex \<Rightarrow> Inl ex
      | Inr s \<Rightarrow>
          if s = JStr ''PROGRESS'' then
            (case get_prop data ''info'' of
               Inl ex \<Rightarrow> Inl ex
             | Inr info \<Rightarrow>
                 (case get_prop info ''status'' of
                    Inl ex \<Rightarrow> Inl ex
                  | Inr status \<Rightarrow>
                      Inr (st\<lparr>processingStatus := or_else status (JStr ''Processing...'')\<rparr>)))
          else if s = JStr ''SUCCESS'' then
            Inr (st\<lparr>processingStatus := JStr ''Processing complete!'', polling := False\<rparr>)
          else if s = JStr ''FAILURE'' then
            (case get_prop data ''info'' of
               Inl ex \<Rightarrow> Inl ex
             | Inr info \<Rightarrow>
                 (case get_prop info ''status'' of
                    Inl ex \<Rightarrow> Inl ex
                  | Inr status \<Rightarrow>
                      Inr (st\<lparr>processingStatus :=
                              JStr (''Processing failed: ''
                                    @ to_string (or_else status (JStr ''Unknown error''))),
                            polling := False\<rparr>)))
          else Inr st)"

text \<open>
  One tick of the interval (\<open>setInterval(async () => { ... }, 3000)\<close>), given what
  \<open>await fetch(`/api/upload/status/${taskId}`)\<close> and \<open>await response.json()\<close> yield. Without
  an interval nothing runs. The callback is \<open>async\<close> and nothing awaits it: an exception in it (a
  rejected \<open>fetch\<close>, a body that is not JSON, a \<open>TypeError\<close>) is an unhandled rejection
  and the interval stays.
\<close>

definition tick :: "exn + jsval \<Rightarrow> state \<Rightarrow> state" where
  "tick response st =
     (if \<not> polling st then st
      else
        let st1 = st\<lparr>requests := requests st @ [StatusRequest (taskId st)]\<rparr> in
        case response of
          Inl ex \<Rightarrow> st1
        | Inr data \<Rightarrow> (case on_status data st1 of Inl ex \<Rightarrow> st1 | Inr st2 \<Rightarrow> st2))"

text \<open>The ticks of a run, one per response, each after the one before it has been handled.\<close>

fun poll :: "(exn + jsval) list \<Rightarrow> state \<Rightarrow> state" where
  "poll [] st = st"
| "poll (r # rs) st = poll rs (tick r st)"

section \<open>\<open>uploadFile\<close>\<close>

text \<open>What the \<open>PUT\<close> of a part resolves to: \<open>res.ok\<close> and \<open>res.headers.get('ETag')\<close>.\<close>

record put_result =
  ok :: bool
  etag :: "string option"

text \<open>
  Everything outside the component that one run of \<open>uploadFile\<close> depends on. An awaited
  call yields \<open>Inl\<close> of the exception when \<open>fetch\<close> or \<open>json()\<close> rejects and \<open>Inr\<close> of the
  parsed body otherwise; parts are named by their \<open>partNumber\<close>. Every call settles.
  \<^item> \<open>now\<close>: \<open>Date.now()\<close>;
  \<^item> \<open>settle_order\<close>: the part numbers in the order in which their \<open>PUT\<close> promises settle;
  \<^item> \<open>settled_before_join\<close>: how many of them have settled when the loop ends and
    \<open>Promise.all\<close> is called (the \<open>PUT\<close>s run while the loop awaits the next part's URL; in
    a browser the \<open>PUT\<close> started last is never among them, and nothing below depends on it);
  \<^item> \<open>complete_response\<close>: \<open>completeResponse.ok\<close> and the parsed body.
\<close>

record env =
  now :: nat
  init_response :: "exn + jsval"
  part_response :: "nat \<Rightarrow> exn + jsval"
  put_response :: "nat \<Rightarrow> exn + put_result"
  settle_order :: "nat list"
  settled_before_join :: nat
  complete_response :: "exn + bool \<times> jsval"

text \<open>
  The \<open>.then\<close> callback of the part whose \<open>partNumber\<close> is \<open>k\<close>: the rejection of
  \<open>uploadPromise\<close>, or the entry it pushes to \<open>uploadedParts\<close>. A \<open>fetch\<close> that rejects never
  reaches the callback and rejects \<open>uploadPromise\<close> with its own exception.
  \<^verbatim>\<open>
  if (!res.ok) throw new Error(`Upload of part ${partNumber} failed.`);
  const etag = res.headers.get('ETag');
  if (!etag) throw new Error(`ETag not found for part ${partNumber}.`);
  uploadedParts.push({ PartNumber: partNumber, ETag: etag.replace(/"/g, '') });
  \<close>
\<close>

definition part_result :: "env \<Rightarrow> nat \<Rightarrow> exn + nat \<times> string" where
  "part_result e k =
     (case put_response e k of
        Inl ex \<Rightarrow> Inl ex
      | Inr res \<Rightarrow>
          if \<not> ok res then
            Inl (Error (''Upload of part '' @ decimal k @ '' failed.''))
          else if etag res = None \<or> etag res = Some [] then
            Inl (Error (''ETag not found for part '' @ decimal k @ ''.''))
          else Inr (k, filter (\<lambda>c. c \<noteq> CHR 0x22) (the (etag res))))"

text \<open>
  The loop over the parts. Iteration \<open>i\<close> awaits the URL of part \<open>i + 1\<close> and starts its \<open>PUT\<close>
  without awaiting it. The result is the calls issued, the number of \<open>PUT\<close>s started and
  the exception that left the loop, if any.
\<close>

function upload_loop ::
  "env \<Rightarrow> nat \<Rightarrow> string \<Rightarrow> jsval \<Rightarrow> nat \<Rightarrow> nat \<Rightarrow> request list
     \<Rightarrow> request list \<times> nat \<times> exn option" where
  "upload_loop e fsize objectKey uploadId nchunks i reqs =
     (if i < nchunks then
        (let c = chunk_of fsize i;
             reqs1 = reqs @ [PartRequest objectKey uploadId (partNumber c)]
         in case part_response e (partNumber c) of
              Inl ex \<Rightarrow> (reqs1, i, Some ex)
            | Inr body \<Rightarrow>
                (case get_prop body ''url'' of
                   Inl ex \<Rightarrow> (reqs1, i, Some ex)
                 | Inr url \<Rightarrow>
                     upload_loop e fsize objectKey uploadId nchunks (i + 1)
                       (reqs1 @ [PutRequest url c])))
      else (reqs, i, None))"
  by pat_completeness auto
termination
  by (relation "measure (\<lambda>(e, fsize, objectKey, uploadId, nchunks, i, reqs). nchunks - i)") auto

declare upload_loop.simps [simp del]

text \<open>
  The order in which the \<open>n\<close> started \<open>PUT\<close>s settle: \<open>settle_order\<close> restricted to the parts
  \<open>1..n\<close>, each once; a started part it does not list settles after the listed ones.
\<close>

definition settle_schedule :: "env \<Rightarrow> nat \<Rightarrow> nat list" where
  "settle_schedule e n =
     (let listed = remdups (filter (\<lambda>k. 1 \<le> k \<and> k \<le> n) (settle_order e))
      in listed @ filter (\<lambda>k. k \<notin> set listed) [1..<n + 1])"

text \<open>
  The updater that a fulfilled \<open>PUT\<close> passes to \<open>setProgress\<close>:
  \<^verbatim>\<open>setProgress(prev => prev + (1 / totalChunks) * 100);\<close>

  Three operations on doubles, each rounded: the quotient, the product and the sum.
  (\<open>totalChunks\<close> is an integer below \<open>2^53\<close>, which is a double.)
\<close>

definition add_percent :: "nat \<Rightarrow> real \<Rightarrow> real" where
  "add_percent nchunks prev = dbl (prev + dbl (dbl (1 / real nchunks) * 100))"

text \<open>
  The callbacks run in the order the \<open>PUT\<close>s settle. A fulfilled one appends its entry and
  bumps the progress.
\<close>

fun run_callbacks ::
  "env \<Rightarrow> nat \<Rightarrow> nat list \<Rightarrow> (nat \<times> string) list \<times> real \<Rightarrow> (nat \<times> string) list \<times> real" where
  "run_callbacks e nchunks [] acc = acc"
| "run_callbacks e nchunks (k # ks) (uploadedParts, prev) =
     (case part_result e k of
        Inl ex \<Rightarrow> run_callbacks e nchunks ks (uploadedParts, prev)
      | Inr entry \<Rightarrow>
          run_callbacks e nchunks ks (uploadedParts @ [entry], add_percent nchunks prev))"

text \<open>
  \<open>await Promise.all(uploadPromises)\<close> over the \<open>n\<close> started parts: \<open>None\<close> when every promise
  fulfils, else the first rejection that reaches it. Promises that are already rejected when
  \<open>Promise.all\<close> is called are seen in array order, the others as they settle.
\<close>

definition promise_all :: "env \<Rightarrow> nat \<Rightarrow> exn option" where
  "promise_all e n =
     (let sched = settle_schedule e n;
          early = sort (take (settled_before_join e) sched);
          late = drop (settled_before_join e) sched
      in case filter (\<lambda>k. isl (part_result e k)) (early @ late) of
           [] \<Rightarrow> None
         | k # ks \<Rightarrow> Some (projl (part_result e k)))"

text \<open>
  Step 2 of the \<open>try\<close> block (\<open>// 2. Get pre-signed URLs and upload chunks\<close>), up to and
  including \<open>await Promise.all(uploadPromises)\<close>: the state it leaves, the array
  \<open>uploadedParts\<close>, and the exception thrown, if any. The state and the array hold the
  effects of every callback of a started \<open>PUT\<close>, also of those that run after the exception.
\<close>

definition upload_chunks ::
  "env \<Rightarrow> File \<Rightarrow> nat \<Rightarrow> string \<Rightarrow> jsval \<Rightarrow> state
     \<Rightarrow> state \<times> (nat \<times> string) list \<times> exn option" where
  "upload_chunks e f nchunks objectKey uploadId st =
     (case upload_loop e (file_size f) objectKey uploadId nchunks 0 (requests st) of
        (reqs, started, thrown) \<Rightarrow>
          (case run_callbacks e nchunks (settle_schedule e started) ([], progress st) of
             (uploadedParts, prog) \<Rightarrow>
               (st\<lparr>requests := reqs, progress := prog\<rparr>,
                uploadedParts,
                case thrown of Some ex \<Rightarrow> Some ex | None \<Rightarrow> promise_all e started)))"

text \<open>
  Step 3 (\<open>// 3. Complete multipart upload\<close>):
  \<^verbatim>\<open>
  const result = await completeResponse.json();
  if (completeResponse.ok) {
    setTaskId(result.taskId);
    setProcessingStatus("Upload complete. Waiting for processing to start...");
  } else {
    throw new Error(result.error || "Failed to complete upload.");
  }
  \<close>
\<close>

definition complete_upload ::
  "env \<Rightarrow> string \<Rightarrow> jsval \<Rightarrow> (nat \<times> string) list \<Rightarrow> state \<Rightarrow> state \<times> exn option" where
  "complete_upload e objectKey uploadId uploadedParts st =
     (let st1 = st\<lparr>requests := requests st @ [CompleteRequest objectKey uploadId uploadedParts]\<rparr>
      in case complete_response e of
           Inl ex \<Rightarrow> (st1, Some ex)
         | Inr (ok', result) \<Rightarrow>
             if ok' then
               (case get_prop result ''taskId'' of
                  Inl ex \<Rightarrow> (st1, Some ex)
                | Inr tid \<Rightarrow>
                    ((setTaskId tid st1)
                       \<lparr>processingStatus := JStr ''Upload complete. Waiting for processing to start...''\<rparr>,
                     None))
             else
               (case get_prop result ''error'' of
                  Inl ex \<Rightarrow> (st1, Some ex)
                | Inr er \<Rightarrow>
                    (st1, Some (Error (to_string (or_else er (JStr ''Failed to complete upload.'')))))))"

text \<open>
  The \<open>try\<close> block: the state it leaves, and the exception thrown in it, if any.
  \<^verbatim>\<open>
  const totalChunks = Math.ceil(file.size / CHUNK_SIZE);
  const objectKey = `${Date.now()}_${file.name}`;
  ...
  const { uploadId } = await initResponse.json();
  if (!uploadId) { throw new Error("Failed to initialize upload."); }
  \<close>
\<close>

definition upload_try :: "env \<Rightarrow> File \<Rightarrow> state \<Rightarrow> state \<times> exn option" where
  "upload_try e f st =
     (let nchunks = totalChunks (file_size f);
          objectKey = decimal (now e) @ ''_'' @ file_name f;
          st1 = st\<lparr>requests := requests st @ [InitRequest objectKey]\<rparr>
      in case init_response e of
           Inl ex \<Rightarrow> (st1, Some ex)
         | Inr body \<Rightarrow>
             (case get_prop body ''uploadId'' of
                Inl ex \<Rightarrow> (st1, Some ex)
              | Inr uploadId \<Rightarrow>
                  if \<not> truthy uploadId then (st1, Some (Error ''Failed to initialize upload.''))
                  else
                    (case upload_chunks e f nchunks objectKey uploadId st1 of
                       (st2, uploadedParts, Some ex) \<Rightarrow> (st2, Some ex)
                     | (st2, uploadedParts, None) \<Rightarrow>
                         complete_upload e objectKey uploadId uploadedParts st2)))"

text \<open>
  What \<open>catch\<close> and \<open>finally\<close> make of the outcome of the \<open>try\<close> block:
  \<^verbatim>\<open>
  catch (err: any) { setError(err.message || "An unknown error occurred during upload."); }
  finally { setUploading(false); }
  \<close>
\<close>

fun catch_finally :: "state \<times> exn option \<Rightarrow> state" where
  "catch_finally (st, None) = st\<lparr>uploading := False\<rparr>"
| "catch_finally (st, Some err) =
     st\<lparr>error := Some (if message err = [] then ''An unknown error occurred during upload.''
                        else message err),
        uploading := False\<rparr>"

text \<open>
  \<^verbatim>\<open>
  if (!file) { setError("No file selected."); return; }
  setUploading(true); setError(null); setProgress(0);
  \<close>
\<close>

definition uploadFile :: "env \<Rightarrow> state \<Rightarrow> state" where
  "uploadFile e st =
     (case file_sel st of
        None \<Rightarrow> st\<lparr>error := Some ''No file selected.''\<rparr>
      | Some f \<Rightarrow>
          catch_finally (upload_try e f (st\<lparr>uploading := True, error := None, progress := 0\<rparr>)))"

section \<open>Notions used to state the properties\<close>

text \<open>The commit request: the call to the finalization endpoint.\<close>

fun is_complete :: "request \<Rightarrow> bool" where
  "is_complete (CompleteRequest objectKey uploadId parts) = True"
| "is_complete r = False"

text \<open>What the loop reads as \<open>url\<close> for part \<open>k\<close>: \<open>const { url } = await partResponse.json()\<close>.\<close>

definition url_of :: "env \<Rightarrow> nat \<Rightarrow> exn + jsval" where
  "url_of e k = (case part_response e k of Inl ex \<Rightarrow> Inl ex | Inr body \<Rightarrow> get_prop body ''url'')"

text \<open>The two calls of one iteration that runs to its end.\<close>

definition part_requests :: "env \<Rightarrow> string \<Rightarrow> jsval \<Rightarrow> chunk \<Rightarrow> request list" where
  "part_requests e objectKey uploadId c =
     [PartRequest objectKey uploadId (partNumber c), PutRequest (projr (url_of e (partNumber c))) c]"

text \<open>
  The chunks handed to \<open>PUT\<close>, in the order of the calls
  (\<^verbatim>\<open>fetch(url, { method: 'PUT', body: chunk })\<close>), and the part numbers for which a URL
  was asked (\<^verbatim>\<open>body: JSON.stringify({ objectKey, uploadId, partNumber })\<close>).
\<close>

fun put_chunks :: "request list \<Rightarrow> chunk list" where
  "put_chunks [] = []"
| "put_chunks (PutRequest url c # rs) = c # put_chunks rs"
| "put_chunks (r # rs) = put_chunks rs"

fun requested_parts :: "request list \<Rightarrow> nat list" where
  "requested_parts [] = []"
| "requested_parts (PartRequest objectKey uploadId k # rs) = k # requested_parts rs"
| "requested_parts (r # rs) = requested_parts rs"

text \<open>The calls that a run of \<open>uploadFile\<close> from \<open>st\<close> adds to the ones issued before.\<close>

definition issued :: "env \<Rightarrow> state \<Rightarrow> request list" where
  "issued e st = drop (length (requests st)) (requests (uploadFile e st))"



section \<open>Concrete runs\<close>

text \<open>The component as mounted: the initial value of every \<open>useState\<close> cell.\<close>

definition idle :: state where
  "idle = \<lparr>file_sel = None, error = None, uploading = False, progress = 0, taskId = JNull,
            processingStatus = JNull, polling = False, requests = []\<rparr>"

text \<open>Files: 3 GiB, empty, one byte, 5 MiB and one byte, 12 MiB, 45 MiB.\<close>

definition video_3GiB :: File where
  "video_3GiB = \<lparr>file_type = ''video/mp4'', file_size = 3221225472, file_name = ''big.mp4''\<rparr>"

definition empty_video :: File where
  "empty_video = \<lparr>file_type = ''video/mp4'', file_size = 0, file_name = ''empty.mp4''\<rparr>"

definition tiny_video :: File where
  "tiny_video = \<lparr>file_type = ''video/mp4'', file_size = 1, file_name = ''tiny.mp4''\<rparr>"

definition two_part_video :: File where
  "two_part_video = \<lparr>file_type = ''video/mp4'', file_size = 5242881, file_name = ''clip.mp4''\<rparr>"

definition video_12MiB :: File where
  "video_12MiB = \<lparr>file_type = ''video/mp4'', file_size = 12582912, file_name = ''talk.mp4''\<rparr>"

definition video_45MiB :: File where
  "video_45MiB = \<lparr>file_type = ''video/mp4'', file_size = 47185920, file_name = ''film.mp4''\<rparr>"

text \<open>
  A backend on which every call succeeds: the session is \<open>u1\<close>, part \<open>k\<close> is stored with the
  tag \<open>"tag"\<close> followed by \<open>k\<close>, and the commit answers with task \<open>t1\<close>. The \<open>PUT\<close>s settle
  after the loop, the last part first.
\<close>

definition backend_ok :: env where
  "backend_ok =
     \<lparr>now = 1700000000000,
      init_response = Inr (JObj [(''uploadId'', JStr ''u1'')]),
      part_response = (\<lambda>k. Inr (JObj [(''url'', JStr (''https://store/part/'' @ decimal k))])),
      put_response = (\<lambda>k. Inr \<lparr>ok = True, etag = Some (''\"tag'' @ decimal k @ ''\"'')\<rparr>),
      settle_order = [3, 2, 1],
      settled_before_join = 0,
      complete_response = Inr (True, JObj [(''taskId'', JStr ''t1'')])\<rparr>"

text \<open>The same backend, whose session initialization answers \<open>{}\<close>.\<close>

definition backend_no_session :: env where
  "backend_no_session = backend_ok\<lparr>init_response := Inr (JObj [])\<rparr>"

text \<open>
  The same backend, on which the \<open>PUT\<close> of part 1 answers with a status that is not 2xx and
  the \<open>PUT\<close> of part 2 is rejected by the network before that.
\<close>

definition backend_two_failures :: env where
  "backend_two_failures =
     backend_ok\<lparr>put_response := (\<lambda>k. if k = 1 then Inr \<lparr>ok = False, etag = None\<rparr>
                                      else Inl (Error ''Failed to fetch'')),
                settle_order := [2, 1]\<rparr>"

text \<open>The same backend, on which the \<open>PUT\<close> of part 2 answers 200 without an \<open>ETag\<close> header.\<close>

definition backend_no_etag :: env where
  "backend_no_etag =
     backend_ok\<lparr>put_response := (\<lambda>k. if k = 2 then Inr \<lparr>ok = True, etag = None\<rparr>
                                      else Inr \<lparr>ok = True, etag = Some (''\"tag'' @ decimal k @ ''\"'')\<rparr>)\<rparr>"

text \<open>
  A state in which the interval of task \<open>t1\<close> is running and the status text set at commit
  time is shown.
\<close>

definition awaiting :: state where
  "awaiting = \<lparr>file_sel = None, error = None, uploading = False, progress = 100,
      taskId = JStr ''t1'',
      processingStatus = JStr ''Upload complete. Waiting for processing to start...'',
      polling = True, requests = []\<rparr>"

text \<open>Status responses: \<open>{state: "QUEUED", info: {status: "Waiting in queue"}}\<close>,
  \<open>{state: "PROGRESS", info: {status: "Transcribing"}}\<close> and \<open>{state: "FAILURE"}\<close>.\<close>

definition queued_observation :: jsval where
  "queued_observation =
     JObj [(''state'', JStr ''QUEUED''), (''info'', JObj [(''status'', JStr ''Waiting in queue'')])]"

definition progress_observation :: jsval where
  "progress_observation =
     JObj [(''state'', JStr ''PROGRESS''), (''info'', JObj [(''status'', JStr ''Transcribing'')])]"

definition failure_without_info :: jsval where
  "failure_without_info = JObj [(''state'', JStr ''FAILURE'')]"

section \<open>Facts about the chunk planner\<close>

lemma CHUNK_SIZE_pos: "0 < CHUNK_SIZE"
  by (simp add: CHUNK_SIZE_def)

lemma ceil_div_nat:
  assumes c: "0 < c"
  shows "nat \<lceil>real n / real c\<rceil> = (n + c - 1) div c"
proof -
  define q where "q = (n + c - 1) div c"
  define r where "r = (n + c - 1) mod c"
  have split: "n + c - 1 = q * c + r"
    by (simp add: q_def r_def)
  have r: "r < c"
    using c by (simp add: r_def)
  have up: "n \<le> q * c"
    using split r by linarith
  have lo: "q * c < n + c"
    using split c by linarith
  have "real n \<le> real q * real c"
    using up by (metis of_nat_le_iff of_nat_mult)
  then have le: "real n / real c \<le> real q"
    using c by (simp add: pos_divide_le_eq)
  have "real q * real c < real n + real c"
    using lo by (metis of_nat_less_iff of_nat_mult of_nat_add)
  then have "(real q - 1) * real c < real n"
    by (simp add: algebra_simps)
  then have gt: "real q - 1 < real n / real c"
    using c by (simp add: pos_less_divide_eq)
  have "\<lceil>real n / real c\<rceil> = int q"
    by (rule ceiling_unique) (use le gt in simp_all)
  then show ?thesis
    by (simp add: q_def)
qed

lemma totalChunks_div: "totalChunks fsize = (fsize + CHUNK_SIZE - 1) div CHUNK_SIZE"
  unfolding totalChunks_def by (rule ceil_div_nat) (rule CHUNK_SIZE_pos)

lemma totalChunks_upper: "fsize \<le> totalChunks fsize * CHUNK_SIZE"
proof -
  have "fsize + CHUNK_SIZE - 1 = totalChunks fsize * CHUNK_SIZE + (fsize + CHUNK_SIZE - 1) mod CHUNK_SIZE"
    by (simp add: totalChunks_div)
  moreover have "(fsize + CHUNK_SIZE - 1) mod CHUNK_SIZE < CHUNK_SIZE"
    using CHUNK_SIZE_pos by simp
  ultimately show ?thesis
    by linarith
qed

lemma totalChunks_lower: "i < totalChunks fsize \<Longrightarrow> i * CHUNK_SIZE < fsize"
proof -
  assume a: "i < totalChunks fsize"
  have "totalChunks fsize * CHUNK_SIZE \<le> fsize + CHUNK_SIZE - 1"
    by (simp add: totalChunks_div)
  moreover have "Suc i * CHUNK_SIZE \<le> totalChunks fsize * CHUNK_SIZE"
    using a by (simp only: mult_le_mono1 Suc_leI)
  ultimately show ?thesis
    using CHUNK_SIZE_pos by simp
qed

lemma totalChunks_pos: "1 \<le> fsize \<Longrightarrow> 1 \<le> totalChunks fsize"
  using totalChunks_upper[of fsize] by (cases "totalChunks fsize") auto

lemma totalChunks_0: "totalChunks 0 = 0"
  by (simp add: totalChunks_def)

lemma chunks_from_map: "chunks_from fsize i = map (chunk_of fsize) [i..<totalChunks fsize]"
proof (induction fsize i rule: chunks_from.induct)
  case (1 fsize i)
  show ?case
  proof (cases "i < totalChunks fsize")
    case True
    with 1 show ?thesis by (subst chunks_from.simps) (simp add: upt_conv_Cons)
  next
    case False
    then show ?thesis by (subst chunks_from.simps) simp
  qed
qed

lemma chunk_plan_map: "chunk_plan fsize = map (chunk_of fsize) [0..<totalChunks fsize]"
  by (simp add: chunk_plan_def chunks_from_map)

lemma length_chunk_plan: "length (chunk_plan fsize) = totalChunks fsize"
  by (simp add: chunk_plan_map)

lemma nth_chunk_plan:
  "i < totalChunks fsize \<Longrightarrow> chunk_plan fsize ! i = chunk_of fsize i"
  by (simp add: chunk_plan_map)

lemma chunk_of_fields:
  "partNumber (chunk_of fsize i) = i + 1"
  "start (chunk_of fsize i) = i * CHUNK_SIZE"
  "endpos (chunk_of fsize i) = min ((i + 1) * CHUNK_SIZE) fsize"
  by (simp_all add: chunk_of_def Let_def)

lemma chunk_full: "Suc i < totalChunks fsize \<Longrightarrow> endpos (chunk_of fsize i) = (i + 1) * CHUNK_SIZE"
  using totalChunks_lower[of "Suc i" fsize] by (simp add: chunk_of_fields)

lemma chunk_last: "1 \<le> fsize \<Longrightarrow> endpos (chunk_of fsize (totalChunks fsize - 1)) = fsize"
  using totalChunks_upper[of fsize] totalChunks_pos[of fsize] by (simp add: chunk_of_fields)

lemma chunk_nonempty: "i < totalChunks fsize \<Longrightarrow> start (chunk_of fsize i) < endpos (chunk_of fsize i)"
  using totalChunks_lower[of i fsize] CHUNK_SIZE_pos by (simp add: chunk_of_fields)

lemma chunk_end_le: "endpos (chunk_of fsize i) \<le> fsize"
  by (simp add: chunk_of_fields)

lemma chunk_order: "i < j \<Longrightarrow> endpos (chunk_of fsize i) \<le> start (chunk_of fsize j)"
proof -
  assume "i < j"
  then have "(i + 1) * CHUNK_SIZE \<le> j * CHUNK_SIZE"
    by (simp only: mult_le_mono1 Suc_leI Suc_eq_plus1[symmetric])
  then show ?thesis
    by (simp add: chunk_of_fields)
qed

lemma chunk_disjoint:
  "i \<noteq> j \<Longrightarrow> {start (chunk_of fsize i)..<endpos (chunk_of fsize i)}
      \<inter> {start (chunk_of fsize j)..<endpos (chunk_of fsize j)} = {}"
  using chunk_order[of i j fsize] chunk_order[of j i fsize]
  by (cases "i < j") auto

lemma chunk_cover: "(\<Union>c\<in>set (chunk_plan fsize). {start c..<endpos c}) = {0..<fsize}"
proof (rule set_eqI)
  fix x
  show "x \<in> (\<Union>c\<in>set (chunk_plan fsize). {start c..<endpos c}) \<longleftrightarrow> x \<in> {0..<fsize}"
  proof
    assume "x \<in> (\<Union>c\<in>set (chunk_plan fsize). {start c..<endpos c})"
    then obtain i where "x < endpos (chunk_of fsize i)"
      by (auto simp: chunk_plan_map)
    with chunk_end_le[of fsize i] show "x \<in> {0..<fsize}"
      by simp
  next
    assume "x \<in> {0..<fsize}"
    then have x: "x < fsize" by simp
    define i where "i = x div CHUNK_SIZE"
    have lo: "i * CHUNK_SIZE \<le> x"
      by (simp add: i_def)
    have hi: "x < (i + 1) * CHUNK_SIZE"
      using CHUNK_SIZE_pos by (simp add: i_def dividend_less_times_div mult.commute)
    have "i * CHUNK_SIZE < totalChunks fsize * CHUNK_SIZE"
      using lo x totalChunks_upper[of fsize] by linarith
    then have i: "i < totalChunks fsize"
      by simp
    have "x \<in> {start (chunk_of fsize i)..<endpos (chunk_of fsize i)}"
      using lo hi x by (simp add: chunk_of_fields)
    moreover have "chunk_of fsize i \<in> set (chunk_plan fsize)"
      using i by (simp add: chunk_plan_map)
    ultimately show "x \<in> (\<Union>c\<in>set (chunk_plan fsize). {start c..<endpos c})"
      by blast
  qed
qed

text \<open>
  The list \<open>chunk_plan L\<close> of an object of \<open>L \<ge> 1\<close> bytes: its length, its part numbers, the
  byte range of each entry, and that the ranges are contiguous, apart and cover \<open>0 ..< L\<close>.
\<close>

lemma chunk_plan_facts:
  assumes L: "1 \<le> L"
  shows "length (chunk_plan L) = nat \<lceil>real L / real CHUNK_SIZE\<rceil>
    \<and> map partNumber (chunk_plan L) = [1..<Suc (length (chunk_plan L))]
    \<and> (\<forall>i<length (chunk_plan L).
          start (chunk_plan L ! i) = i * CHUNK_SIZE
        \<and> endpos (chunk_plan L ! i) = min ((i + 1) * CHUNK_SIZE) L
        \<and> start (chunk_plan L ! i) < endpos (chunk_plan L ! i))
    \<and> start (hd (chunk_plan L)) = 0
    \<and> endpos (last (chunk_plan L)) = L
    \<and> (\<forall>i. Suc i < length (chunk_plan L) \<longrightarrow>
          endpos (chunk_plan L ! i) = start (chunk_plan L ! Suc i)
        \<and> endpos (chunk_plan L ! i) - start (chunk_plan L ! i) = CHUNK_SIZE)
    \<and> (\<forall>i<length (chunk_plan L). \<forall>j<length (chunk_plan L). i \<noteq> j \<longrightarrow>
          {start (chunk_plan L ! i)..<endpos (chunk_plan L ! i)}
            \<inter> {start (chunk_plan L ! j)..<endpos (chunk_plan L ! j)} = {})
    \<and> (\<Union>c\<in>set (chunk_plan L). {start c..<endpos c}) = {0..<L}"
proof -
  let ?n = "totalChunks L"
  have n: "1 \<le> ?n"
    using L by (rule totalChunks_pos)
  have len: "length (chunk_plan L) = ?n"
    by (rule length_chunk_plan)
  have count: "length (chunk_plan L) = nat \<lceil>real L / real CHUNK_SIZE\<rceil>"
    by (simp add: len totalChunks_def)
  have numbers: "map partNumber (chunk_plan L) = [1..<Suc (length (chunk_plan L))]"
  proof (rule nth_equalityI)
    show "length (map partNumber (chunk_plan L)) = length [1..<Suc (length (chunk_plan L))]"
      by (simp del: upt_Suc)
  next
    fix i
    assume "i < length (map partNumber (chunk_plan L))"
    then have i: "i < ?n"
      by (simp add: len)
    then have "[1..<Suc ?n] ! i = 1 + i"
      by (intro nth_upt) simp
    with i show "map partNumber (chunk_plan L) ! i = [1..<Suc (length (chunk_plan L))] ! i"
      by (simp add: len nth_chunk_plan chunk_of_fields del: upt_Suc)
  qed
  have ranges: "\<forall>i<length (chunk_plan L).
          start (chunk_plan L ! i) = i * CHUNK_SIZE
        \<and> endpos (chunk_plan L ! i) = min ((i + 1) * CHUNK_SIZE) L
        \<and> start (chunk_plan L ! i) < endpos (chunk_plan L ! i)"
    using chunk_nonempty[of _ L] by (simp add: len nth_chunk_plan chunk_of_fields)
  have ne: "chunk_plan L \<noteq> []"
    using n len by (cases "chunk_plan L") auto
  have first: "start (hd (chunk_plan L)) = 0"
    using n by (simp add: hd_conv_nth[OF ne] nth_chunk_plan chunk_of_fields)
  have "last (chunk_plan L) = chunk_plan L ! (?n - 1)"
    by (simp add: last_conv_nth[OF ne] len)
  also have "\<dots> = chunk_of L (?n - 1)"
    using n by (intro nth_chunk_plan) simp
  finally have final: "endpos (last (chunk_plan L)) = L"
    using chunk_last[OF L] by simp
  have contiguous: "\<forall>i. Suc i < length (chunk_plan L) \<longrightarrow>
          endpos (chunk_plan L ! i) = start (chunk_plan L ! Suc i)
        \<and> endpos (chunk_plan L ! i) - start (chunk_plan L ! i) = CHUNK_SIZE"
  proof (intro allI impI)
    fix i
    assume "Suc i < length (chunk_plan L)"
    then have i: "Suc i < ?n"
      by (simp add: len)
    then have "chunk_plan L ! i = chunk_of L i" "chunk_plan L ! Suc i = chunk_of L (Suc i)"
      by (simp_all add: nth_chunk_plan)
    then show "endpos (chunk_plan L ! i) = start (chunk_plan L ! Suc i)
        \<and> endpos (chunk_plan L ! i) - start (chunk_plan L ! i) = CHUNK_SIZE"
      using chunk_full[OF i] by (simp add: chunk_of_fields(2))
  qed
  have apart: "\<forall>i<length (chunk_plan L). \<forall>j<length (chunk_plan L). i \<noteq> j \<longrightarrow>
          {start (chunk_plan L ! i)..<endpos (chunk_plan L ! i)}
            \<inter> {start (chunk_plan L ! j)..<endpos (chunk_plan L ! j)} = {}"
    using chunk_disjoint[of _ _ L] by (simp add: len nth_chunk_plan)
  from count numbers ranges first final contiguous apart chunk_cover[of L]
  show ?thesis
    by blast
qed

text \<open>The plan of an object of 12 MiB (12582912 bytes): 5 MiB, 5 MiB and 2 MiB.\<close>

lemma chunk_plan_12MiB:
  "chunk_plan 12582912 =
     [\<lparr>partNumber = 1, start = 0, endpos = 5242880\<rparr>,
      \<lparr>partNumber = 2, start = 5242880, endpos = 10485760\<rparr>,
      \<lparr>partNumber = 3, start = 10485760, endpos = 12582912\<rparr>]"
  by (simp add: chunk_plan_map totalChunks_div chunk_of_def CHUNK_SIZE_def upt_conv_Cons)

section \<open>Facts about the rounding of doubles\<close>











lemma dbl_0: "dbl 0 = 0"
  by (simp add: dbl_def)








section \<open>Facts about the poller\<close>

text \<open>Without an interval no query is issued, whatever the backend would answer.\<close>

lemma tick_idle: "\<not> polling st \<Longrightarrow> tick r st = st"
  by (simp add: tick_def)

lemma poll_idle: "\<not> polling st \<Longrightarrow> poll rs st = st"
  by (induction rs) (simp_all add: tick_idle)

text \<open>
  The terminal observations that the callback handles to its end: the status is set, the
  interval is cleared, and the ticks that would follow issue nothing.
\<close>

lemma tick_success:
  assumes "polling st" and "get_prop data ''state'' = Inr (JStr ''SUCCESS'')"
  shows "tick (Inr data) st =
           st\<lparr>requests := requests st @ [StatusRequest (taskId st)],
              processingStatus := JStr ''Processing complete!'', polling := False\<rparr>"
  using assms by (simp add: tick_def on_status_def)

lemma tick_failure_with_info:
  assumes "polling st" and "get_prop data ''state'' = Inr (JStr ''FAILURE'')"
    and "get_prop data ''info'' = Inr info" and "get_prop info ''status'' = Inr status"
  shows "tick (Inr data) st =
           st\<lparr>requests := requests st @ [StatusRequest (taskId st)],
              processingStatus :=
                JStr (''Processing failed: '' @ to_string (or_else status (JStr ''Unknown error''))),
              polling := False\<rparr>"
  using assms by (simp add: tick_def on_status_def)

lemma poll_append: "poll (rs @ rs') st = poll rs' (poll rs st)"
  by (induction rs arbitrary: st) simp_all

lemma poller_stops_after_terminal_observation:
  assumes running: "polling (poll rs st)"
    and terminal: "get_prop data ''state'' = Inr (JStr ''SUCCESS'')
       \<or> get_prop data ''state'' = Inr (JStr ''FAILURE'')
         \<and> get_prop data ''info'' = Inr info \<and> get_prop info ''status'' = Inr status"
  shows "poll (rs @ Inr data # later) st = tick (Inr data) (poll rs st)
       \<and> \<not> polling (tick (Inr data) (poll rs st))
       \<and> requests (tick (Inr data) (poll rs st))
            = requests (poll rs st) @ [StatusRequest (taskId (poll rs st))]
       \<and> processingStatus (tick (Inr data) (poll rs st))
            = (if get_prop data ''state'' = Inr (JStr ''SUCCESS'') then JStr ''Processing complete!''
               else JStr (''Processing failed: '' @ to_string (or_else status (JStr ''Unknown error''))))"
proof -
  have stopped: "\<not> polling (tick (Inr data) (poll rs st))"
    and asked: "requests (tick (Inr data) (poll rs st))
            = requests (poll rs st) @ [StatusRequest (taskId (poll rs st))]"
    and shown: "processingStatus (tick (Inr data) (poll rs st))
            = (if get_prop data ''state'' = Inr (JStr ''SUCCESS'') then JStr ''Processing complete!''
               else JStr (''Processing failed: '' @ to_string (or_else status (JStr ''Unknown error''))))"
    using terminal tick_success[OF running] tick_failure_with_info[OF running] by auto
  have "poll (rs @ Inr data # later) st = poll later (tick (Inr data) (poll rs st))"
    by (simp add: poll_append)
  with stopped asked shown show ?thesis
    by (simp add: poll_idle)
qed

text \<open>Reading a property of \<open>undefined\<close> or \<open>null\<close> throws; of any other value it does not.\<close>

lemma get_prop_absent_cases:
  "v = JUndefined \<or> v = JNull \<Longrightarrow> get_prop v key = Inl TypeError"
  by auto

lemma get_prop_present:
  "v \<noteq> JUndefined \<Longrightarrow> v \<noteq> JNull \<Longrightarrow> \<exists>w. get_prop v key = Inr w"
  by (cases v) (auto split: option.splits)

lemma get_prop_throws: "get_prop v key = Inl ex \<Longrightarrow> ex = TypeError"
  by (cases v) (auto split: option.splits)

section \<open>Facts about \<open>uploadFile\<close>\<close>

subsection \<open>The loop\<close>

lemma upload_loop_done:
  "\<not> i < nchunks \<Longrightarrow> upload_loop e fsize objectKey uploadId nchunks i reqs = (reqs, i, None)"
  by (subst upload_loop.simps) simp

lemma upload_loop_step:
  assumes "i < nchunks" and "url_of e (i + 1) = Inr url"
  shows "upload_loop e fsize objectKey uploadId nchunks i reqs =
           upload_loop e fsize objectKey uploadId nchunks (i + 1)
             (reqs @ part_requests e objectKey uploadId (chunk_of fsize i))"
  using assms
  by (subst upload_loop.simps)
     (auto simp: url_of_def part_requests_def chunk_of_def Let_def split: sum.splits)

lemma upload_loop_throw:
  assumes "i < nchunks" and "url_of e (i + 1) = Inl ex"
  shows "upload_loop e fsize objectKey uploadId nchunks i reqs =
           (reqs @ [PartRequest objectKey uploadId (i + 1)], i, Some ex)"
  using assms
  by (subst upload_loop.simps)
     (auto simp: url_of_def chunk_of_def Let_def split: sum.splits)

lemma upload_loop_shape:
  assumes "upload_loop e fsize objectKey uploadId nchunks i reqs = (reqs', started, thrown)"
    and "i \<le> nchunks"
  shows "started \<le> nchunks \<and> (thrown = None \<longrightarrow> started = nchunks)
       \<and> (\<exists>more. reqs' = reqs @ more \<and> (\<forall>r\<in>set more. \<not> is_complete r))"
  using assms
proof (induction e fsize objectKey uploadId nchunks i reqs rule: upload_loop.induct)
  case (1 e fsize objectKey uploadId nchunks i reqs)
  show ?case
  proof (cases "i < nchunks")
    case False
    with "1.prems" show ?thesis
      by (simp add: upload_loop_done)
  next
    case True
    show ?thesis
    proof (cases "url_of e (i + 1)")
      case (Inl ex)
      with True "1.prems" show ?thesis
        by (auto simp: upload_loop_throw)
    next
      case (Inr url)
      then obtain body where body: "part_response e (i + 1) = Inr body" "get_prop body ''url'' = Inr url"
        by (auto simp: url_of_def split: sum.splits)
      have next_run: "upload_loop e fsize objectKey uploadId nchunks (i + 1)
             (reqs @ part_requests e objectKey uploadId (chunk_of fsize i)) = (reqs', started, thrown)"
        using True Inr "1.prems"(1) by (simp add: upload_loop_step)
      have "started \<le> nchunks \<and> (thrown = None \<longrightarrow> started = nchunks)
         \<and> (\<exists>more. reqs' = ((reqs @ [PartRequest objectKey uploadId (partNumber (chunk_of fsize i))])
                         @ [PutRequest url (chunk_of fsize i)]) @ more
               \<and> (\<forall>r\<in>set more. \<not> is_complete r))"
      proof (rule "1.IH"[OF True refl refl _ _ ])
        show "part_response e (partNumber (chunk_of fsize i)) = Inr body"
          using body by (simp add: chunk_of_def Let_def)
        show "get_prop body ''url'' = Inr url"
          by (rule body)
        show "upload_loop e fsize objectKey uploadId nchunks (i + 1)
           ((reqs @ [PartRequest objectKey uploadId (partNumber (chunk_of fsize i))]) @
            [PutRequest url (chunk_of fsize i)]) = (reqs', started, thrown)"
          using next_run Inr by (simp add: part_requests_def chunk_of_def Let_def)
        show "i + 1 \<le> nchunks"
          using True by simp
      qed
      then show ?thesis
        by auto
    qed
  qed
qed

lemma upload_loop_ok:
  assumes "\<forall>k. i < k \<and> k \<le> nchunks \<longrightarrow> \<not> isl (url_of e k)"
  shows "upload_loop e fsize objectKey uploadId nchunks i reqs =
           (reqs @ concat (map (part_requests e objectKey uploadId) (map (chunk_of fsize) [i..<nchunks])),
            max i nchunks, None)"
  using assms
proof (induction e fsize objectKey uploadId nchunks i reqs rule: upload_loop.induct)
  case (1 e fsize objectKey uploadId nchunks i reqs)
  show ?case
  proof (cases "i < nchunks")
    case False
    then show ?thesis
      by (simp add: upload_loop_done max_def)
  next
    case True
    with "1.prems" have "\<not> isl (url_of e (i + 1))"
      by simp
    then obtain url where url: "url_of e (i + 1) = Inr url"
      by (cases "url_of e (i + 1)") auto
    then obtain body where body: "part_response e (i + 1) = Inr body" "get_prop body ''url'' = Inr url"
      by (auto simp: url_of_def split: sum.splits)
    have "upload_loop e fsize objectKey uploadId nchunks (i + 1)
            ((reqs @ [PartRequest objectKey uploadId (partNumber (chunk_of fsize i))])
               @ [PutRequest url (chunk_of fsize i)])
          = (((reqs @ [PartRequest objectKey uploadId (partNumber (chunk_of fsize i))])
               @ [PutRequest url (chunk_of fsize i)])
             @ concat (map (part_requests e objectKey uploadId) (map (chunk_of fsize) [i + 1..<nchunks])),
             max (i + 1) nchunks, None)"
    proof (rule "1.IH"[OF True refl refl _ _ ])
      show "part_response e (partNumber (chunk_of fsize i)) = Inr body"
        using body by (simp add: chunk_of_def Let_def)
      show "get_prop body ''url'' = Inr url"
        by (rule body)
      show "\<forall>k. i + 1 < k \<and> k \<le> nchunks \<longrightarrow> \<not> isl (url_of e k)"
        using "1.prems" by simp
    qed
    moreover have "part_requests e objectKey uploadId (chunk_of fsize i)
        = [PartRequest objectKey uploadId (partNumber (chunk_of fsize i)), PutRequest url (chunk_of fsize i)]"
      using url by (simp add: part_requests_def chunk_of_def Let_def)
    ultimately show ?thesis
      using True url by (simp add: upload_loop_step upt_conv_Cons max_def)
  qed
qed

subsection \<open>The order of settlement, the callbacks and the join\<close>

lemma set_settle_schedule: "set (settle_schedule e n) = {1..n}"
  by (auto simp: settle_schedule_def Let_def)

lemma distinct_settle_schedule: "distinct (settle_schedule e n)"
  by (auto simp: settle_schedule_def Let_def)

lemma length_settle_schedule: "length (settle_schedule e n) = n"
proof -
  have "length (settle_schedule e n) = card (set (settle_schedule e n))"
    by (simp add: distinct_card distinct_settle_schedule)
  then show ?thesis
    by (simp add: set_settle_schedule)
qed

lemma settle_schedule_sorted:
  "sorted (settle_schedule e n) \<longleftrightarrow> settle_schedule e n = [1..<Suc n]"
proof
  assume "sorted (settle_schedule e n)"
  moreover have "set (settle_schedule e n) = set [1..<Suc n]"
    by (simp only: set_settle_schedule set_upt atLeastLessThanSuc_atLeastAtMost)
  ultimately show "settle_schedule e n = [1..<Suc n]"
    by (intro sorted_distinct_set_unique distinct_settle_schedule) (simp_all del: upt_Suc)
next
  assume "settle_schedule e n = [1..<Suc n]"
  then show "sorted (settle_schedule e n)"
    by (simp only: sorted_upt)
qed

lemma run_callbacks_eq:
  "run_callbacks e nchunks ks (parts, p) =
     (parts @ map (\<lambda>k. projr (part_result e k)) (filter (\<lambda>k. \<not> isl (part_result e k)) ks),
      (add_percent nchunks ^^ length (filter (\<lambda>k. \<not> isl (part_result e k)) ks)) p)"
proof (induction ks arbitrary: parts p)
  case Nil
  show ?case by simp
next
  case (Cons k ks)
  show ?case
    by (cases "part_result e k") (simp_all add: Cons.IH funpow_swap1)
qed

lemma part_result_ok:
  "\<not> isl (part_result e k) \<Longrightarrow>
   part_result e k = Inr (k, filter (\<lambda>c. c \<noteq> CHR 0x22) (the (etag (projr (put_response e k)))))"
  by (cases "put_response e k") (auto simp: part_result_def split: if_splits)

lemma part_result_failed:
  assumes "put_response e k = Inr res"
  shows "part_result e k =
     (if \<not> ok res then Inl (Error (''Upload of part '' @ decimal k @ '' failed.''))
      else if etag res = None \<or> etag res = Some [] then Inl (Error (''ETag not found for part '' @ decimal k @ ''.''))
      else Inr (k, filter (\<lambda>c. c \<noteq> CHR 0x22) (the (etag res))))"
  using assms by (simp add: part_result_def)

lemma first_rejection_None:
  "(case ks of [] \<Rightarrow> None | k # ks' \<Rightarrow> Some (f k)) = None \<longleftrightarrow> ks = []"
  by (cases ks) simp_all

lemma first_rejection_Some:
  "(case ks of [] \<Rightarrow> None | k # ks' \<Rightarrow> Some (f k)) = Some y \<Longrightarrow> \<exists>k ks'. ks = k # ks' \<and> y = f k"
  by (cases ks) auto

lemma join_order_set:
  "set (sort (take m (settle_schedule e n)) @ drop m (settle_schedule e n)) = {1..n}"
proof -
  have "set (sort (take m (settle_schedule e n)) @ drop m (settle_schedule e n))
      = set (take m (settle_schedule e n) @ drop m (settle_schedule e n))"
    by (simp only: set_append set_sort)
  then show ?thesis
    by (simp only: append_take_drop_id set_settle_schedule)
qed

lemma promise_all_None:
  "promise_all e n = None \<longleftrightarrow> (\<forall>k\<in>{1..n}. \<not> isl (part_result e k))"
  unfolding promise_all_def Let_def first_rejection_None filter_empty_conv join_order_set
  by (rule refl)

lemma promise_all_Some:
  assumes "promise_all e n = Some ex"
  shows "\<exists>k\<in>{1..n}. part_result e k = Inl ex"
proof -
  let ?order = "sort (take (settled_before_join e) (settle_schedule e n))
                  @ drop (settled_before_join e) (settle_schedule e n)"
  from assms have "\<exists>k ks. filter (\<lambda>k. isl (part_result e k)) ?order = k # ks
      \<and> ex = projl (part_result e k)"
    unfolding promise_all_def Let_def by (rule first_rejection_Some)
  then obtain k ks where f: "filter (\<lambda>k. isl (part_result e k)) ?order = k # ks"
    and ex: "ex = projl (part_result e k)"
    by blast
  have "k \<in> set (filter (\<lambda>k. isl (part_result e k)) ?order)"
    by (simp only: f list.set_intros)
  then have "k \<in> set ?order \<and> isl (part_result e k)"
    by (simp only: set_filter mem_Collect_eq)
  then have "k \<in> {1..n}" and "isl (part_result e k)"
    by (simp_all only: join_order_set)
  with ex show ?thesis
    by (cases "part_result e k") auto
qed

subsection \<open>The steps of the \<open>try\<close> block\<close>

lemma upload_chunks_ok:
  assumes "\<forall>k\<in>{1..n}. \<not> isl (url_of e k)"
  shows "upload_chunks e f n objectKey uploadId st =
     (st\<lparr>requests := requests st
            @ concat (map (part_requests e objectKey uploadId) (map (chunk_of (file_size f)) [0..<n])),
         progress := (add_percent n ^^ length (filter (\<lambda>k. \<not> isl (part_result e k)) (settle_schedule e n)))
                       (progress st)\<rparr>,
      map (\<lambda>k. projr (part_result e k)) (filter (\<lambda>k. \<not> isl (part_result e k)) (settle_schedule e n)),
      promise_all e n)"
proof -
  have "\<forall>k. 0 < k \<and> k \<le> n \<longrightarrow> \<not> isl (url_of e k)"
    using assms by simp
  then have "upload_loop e (file_size f) objectKey uploadId n 0 (requests st) =
           (requests st @ concat (map (part_requests e objectKey uploadId) (map (chunk_of (file_size f)) [0..<n])),
            max 0 n, None)"
    by (rule upload_loop_ok)
  then show ?thesis
    by (simp add: upload_chunks_def run_callbacks_eq)
qed

lemma upload_chunks_shape:
  assumes "upload_chunks e f n objectKey uploadId st = (st2, parts, thrown)"
  shows "(\<exists>more. requests st2 = requests st @ more \<and> (\<forall>r\<in>set more. \<not> is_complete r))
       \<and> (thrown = None \<longrightarrow> (\<forall>k\<in>{1..n}. \<not> isl (part_result e k)))
       \<and> (\<exists>started\<le>n. st2 = st\<lparr>requests := requests st2,
                 progress := snd (run_callbacks e n (settle_schedule e started) ([], progress st))\<rparr>)"
proof -
  obtain reqs started thrown' where
    loop: "upload_loop e (file_size f) objectKey uploadId n 0 (requests st) = (reqs, started, thrown')"
    by (cases "upload_loop e (file_size f) objectKey uploadId n 0 (requests st)") auto
  then have shape: "started \<le> n" "thrown' = None \<longrightarrow> started = n"
    "\<exists>more. reqs = requests st @ more \<and> (\<forall>r\<in>set more. \<not> is_complete r)"
    using upload_loop_shape[OF loop] by simp_all
  obtain ps p where cb: "run_callbacks e n (settle_schedule e started) ([], progress st) = (ps, p)"
    by (cases "run_callbacks e n (settle_schedule e started) ([], progress st)") auto
  from assms loop cb have st2: "st2 = st\<lparr>requests := reqs, progress := p\<rparr>"
    and thrown: "thrown = (case thrown' of Some ex \<Rightarrow> Some ex | None \<Rightarrow> promise_all e started)"
    by (simp_all add: upload_chunks_def)
  have "thrown = None \<longrightarrow> (\<forall>k\<in>{1..n}. \<not> isl (part_result e k))"
    using thrown shape(2) by (cases thrown') (auto simp: promise_all_None)
  moreover have "\<exists>started\<le>n. st2 = st\<lparr>requests := requests st2,
                 progress := snd (run_callbacks e n (settle_schedule e started) ([], progress st))\<rparr>"
    using st2 cb shape(1) by (intro exI[of _ started]) simp
  ultimately show ?thesis
    using shape(3) st2 by simp
qed

lemma complete_upload_effects:
  "\<exists>st' thrown. complete_upload e objectKey uploadId parts st = (st', thrown)
     \<and> requests st' = requests st @ [CompleteRequest objectKey uploadId parts]
     \<and> progress st' = progress st \<and> file_sel st' = file_sel st"
  by (cases "complete_response e")
     (auto simp: complete_upload_def Let_def setTaskId_def split: sum.splits prod.splits)

lemma catch_finally_effects:
  "requests (catch_finally (st, thrown)) = requests st
   \<and> progress (catch_finally (st, thrown)) = progress st
   \<and> \<not> uploading (catch_finally (st, thrown))
   \<and> (\<forall>ex. thrown = Some ex \<longrightarrow>
        taskId (catch_finally (st, thrown)) = taskId st
      \<and> polling (catch_finally (st, thrown)) = polling st
      \<and> error (catch_finally (st, thrown))
           = Some (if message ex = [] then ''An unknown error occurred during upload.'' else message ex))"
  by (cases thrown) simp_all

lemma uploadFile_no_file:
  "file_sel st = None \<Longrightarrow> uploadFile e st = st\<lparr>error := Some ''No file selected.''\<rparr>"
  by (simp add: uploadFile_def)

lemma upload_try_started:
  assumes "init_response e = Inr body" and "get_prop body ''uploadId'' = Inr uploadId" and "truthy uploadId"
  shows "upload_try e f st =
     (case upload_chunks e f (totalChunks (file_size f)) (decimal (now e) @ ''_'' @ file_name f) uploadId
             (st\<lparr>requests := requests st @ [InitRequest (decimal (now e) @ ''_'' @ file_name f)]\<rparr>) of
        (st2, uploadedParts, Some ex) \<Rightarrow> (st2, Some ex)
      | (st2, uploadedParts, None) \<Rightarrow>
          complete_upload e (decimal (now e) @ ''_'' @ file_name f) uploadId uploadedParts st2)"
  using assms by (simp add: upload_try_def Let_def split: prod.split option.split)

lemma upload_try_aborts:
  assumes k: "k \<in> {1..totalChunks (file_size f)}" and failed: "isl (part_result e k)"
  shows "\<exists>st' ex more. upload_try e f st = (st', Some ex)
           \<and> requests st' = requests st @ more \<and> (\<forall>r\<in>set more. \<not> is_complete r)
           \<and> taskId st' = taskId st \<and> polling st' = polling st"
proof -
  let ?n = "totalChunks (file_size f)"
  let ?key = "decimal (now e) @ ''_'' @ file_name f"
  let ?st1 = "st\<lparr>requests := requests st @ [InitRequest ?key]\<rparr>"
  have early: "\<exists>st' ex more. (?st1, Some ex0) = (st', Some ex)
           \<and> requests st' = requests st @ more \<and> (\<forall>r\<in>set more. \<not> is_complete r)
           \<and> taskId st' = taskId st \<and> polling st' = polling st" for ex0
    by (intro exI[of _ ?st1] exI[of _ ex0] exI[of _ "[InitRequest ?key]"]) simp
  show ?thesis
  proof (cases "init_response e")
    case (Inl ex0)
    with early[of ex0] show ?thesis
      by (simp add: upload_try_def Let_def)
  next
    case body: (Inr body)
    show ?thesis
    proof (cases "get_prop body ''uploadId''")
      case (Inl ex0)
      with body early[of ex0] show ?thesis
        by (simp add: upload_try_def Let_def)
    next
      case uid: (Inr uploadId)
      show ?thesis
      proof (cases "truthy uploadId")
        case False
        with body uid early[of "Error ''Failed to initialize upload.''"] show ?thesis
          by (simp add: upload_try_def Let_def)
      next
        case True
        obtain st2 parts thrown where chunks: "upload_chunks e f ?n ?key uploadId ?st1 = (st2, parts, thrown)"
          by (cases "upload_chunks e f ?n ?key uploadId ?st1") auto
        from upload_chunks_shape[OF chunks] obtain more started where
          more: "requests st2 = requests ?st1 @ more" "\<forall>r\<in>set more. \<not> is_complete r"
          and joined: "thrown = None \<longrightarrow> (\<forall>k\<in>{1..?n}. \<not> isl (part_result e k))"
          and st2: "st2 = ?st1\<lparr>requests := requests st2,
                 progress := snd (run_callbacks e ?n (settle_schedule e started) ([], progress ?st1))\<rparr>"
          by blast
        from joined k failed obtain ex where thrown: "thrown = Some ex"
          by (cases thrown) auto
        have "upload_try e f st = (st2, Some ex)"
          using chunks thrown by (simp add: upload_try_started[OF body uid True])
        moreover have "requests st2 = requests st @ (InitRequest ?key # more)"
          using more(1) by simp
        moreover have "\<forall>r\<in>set (InitRequest ?key # more). \<not> is_complete r"
          using more(2) by simp
        moreover have "taskId st2 = taskId st \<and> polling st2 = polling st"
          by (subst (1 2) st2) simp
        ultimately show ?thesis
          by blast
      qed
    qed
  qed
qed

lemma uploadFile_negotiated:
  fixes e :: env and st :: state and f :: File
  defines "n \<equiv> totalChunks (file_size f)"
    and "objectKey \<equiv> decimal (now e) @ ''_'' @ file_name f"
  defines "settled \<equiv> filter (\<lambda>k. \<not> isl (part_result e k)) (settle_schedule e n)"
  assumes sel: "file_sel st = Some f"
    and init: "init_response e = Inr body" "get_prop body ''uploadId'' = Inr uploadId" "truthy uploadId"
    and urls: "\<forall>k\<in>{1..n}. \<not> isl (url_of e k)"
  shows "uploadFile e st =
    catch_finally
     (case promise_all e n of
        Some ex \<Rightarrow>
          (st\<lparr>uploading := True, error := None,
              requests := requests st @ [InitRequest objectKey]
                 @ concat (map (part_requests e objectKey uploadId) (chunk_plan (file_size f))),
              progress := (add_percent n ^^ length settled) 0\<rparr>,
           Some ex)
      | None \<Rightarrow>
          complete_upload e objectKey uploadId (map (\<lambda>k. projr (part_result e k)) settled)
            (st\<lparr>uploading := True, error := None,
                requests := requests st @ [InitRequest objectKey]
                   @ concat (map (part_requests e objectKey uploadId) (chunk_plan (file_size f))),
                progress := (add_percent n ^^ length settled) 0\<rparr>))"
proof -
  let ?st0 = "st\<lparr>uploading := True, error := None, progress := 0\<rparr>"
  let ?st1 = "?st0\<lparr>requests := requests ?st0 @ [InitRequest objectKey]\<rparr>"
  have "upload_try e f ?st0 =
     (case promise_all e n of
        Some ex \<Rightarrow>
          (st\<lparr>uploading := True, error := None,
              requests := requests st @ [InitRequest objectKey]
                 @ concat (map (part_requests e objectKey uploadId) (chunk_plan (file_size f))),
              progress := (add_percent n ^^ length settled) 0\<rparr>,
           Some ex)
      | None \<Rightarrow>
          complete_upload e objectKey uploadId (map (\<lambda>k. projr (part_result e k)) settled)
            (st\<lparr>uploading := True, error := None,
                requests := requests st @ [InitRequest objectKey]
                   @ concat (map (part_requests e objectKey uploadId) (chunk_plan (file_size f))),
                progress := (add_percent n ^^ length settled) 0\<rparr>))"
    using upload_chunks_ok[OF urls, of f objectKey uploadId ?st1]
    by (simp add: upload_try_started[OF init] n_def objectKey_def settled_def chunk_plan_map
          split: option.split)
  then show ?thesis
    using sel by (simp add: uploadFile_def)
qed



lemma upload_of_empty_file:
  assumes sel: "file_sel st = Some f" and empty: "file_size f = 0"
    and init: "init_response e = Inr body" "get_prop body ''uploadId'' = Inr uploadId" "truthy uploadId"
  shows "requests (uploadFile e st) =
           requests st @ [InitRequest (decimal (now e) @ ''_'' @ file_name f),
                          CompleteRequest (decimal (now e) @ ''_'' @ file_name f) uploadId []]"
proof -
  let ?key = "decimal (now e) @ ''_'' @ file_name f"
  have n: "totalChunks (file_size f) = 0"
    by (simp add: empty totalChunks_0)
  have urls: "\<forall>k\<in>{1..totalChunks (file_size f)}. \<not> isl (url_of e k)"
    by (simp add: n)
  have joined: "promise_all e 0 = None"
    by (simp add: promise_all_None)
  have sched: "settle_schedule e 0 = []"
    using length_settle_schedule[of e 0] by simp
  obtain st' thrown where
    "complete_upload e ?key uploadId []
       (st\<lparr>uploading := True, error := None,
           requests := requests st @ [InitRequest ?key], progress := 0\<rparr>) = (st', thrown)"
    and "requests st' = requests st @ [InitRequest ?key] @ [CompleteRequest ?key uploadId []]"
    using complete_upload_effects[of e ?key uploadId "[]"
        "st\<lparr>uploading := True, error := None,
           requests := requests st @ [InitRequest ?key], progress := 0\<rparr>"]
    by auto
  then show ?thesis
    by (subst uploadFile_negotiated[OF sel init urls])
       (simp add: n joined sched chunk_plan_map catch_finally_effects)
qed

subsection \<open>The chunks handed to \<open>PUT\<close>\<close>

lemma put_chunks_append: "put_chunks (xs @ ys) = put_chunks xs @ put_chunks ys"
  by (induction xs rule: put_chunks.induct) simp_all

lemma requested_parts_append: "requested_parts (xs @ ys) = requested_parts xs @ requested_parts ys"
  by (induction xs rule: requested_parts.induct) simp_all

lemma put_chunks_part_requests:
  "put_chunks (concat (map (part_requests e objectKey uploadId) cs)) = cs"
  by (induction cs) (simp_all add: part_requests_def)

lemma requested_parts_part_requests:
  "requested_parts (concat (map (part_requests e objectKey uploadId) cs)) = map partNumber cs"
  by (induction cs) (simp_all add: part_requests_def)

lemma upload_loop_puts:
  assumes "upload_loop e fsize objectKey uploadId nchunks i reqs = (reqs', started, thrown)"
    and "i \<le> nchunks"
  shows "put_chunks reqs' = put_chunks reqs @ map (chunk_of fsize) [i..<started] \<and> i \<le> started"
  using assms
proof (induction e fsize objectKey uploadId nchunks i reqs rule: upload_loop.induct)
  case (1 e fsize objectKey uploadId nchunks i reqs)
  show ?case
  proof (cases "i < nchunks")
    case False
    with "1.prems" show ?thesis
      by (simp add: upload_loop_done)
  next
    case True
    show ?thesis
    proof (cases "url_of e (i + 1)")
      case (Inl ex)
      with True "1.prems" show ?thesis
        by (auto simp: upload_loop_throw put_chunks_append)
    next
      case (Inr url)
      then obtain body where body: "part_response e (i + 1) = Inr body" "get_prop body ''url'' = Inr url"
        by (auto simp: url_of_def split: sum.splits)
      have next_run: "upload_loop e fsize objectKey uploadId nchunks (i + 1)
             (reqs @ part_requests e objectKey uploadId (chunk_of fsize i)) = (reqs', started, thrown)"
        using True Inr "1.prems"(1) by (simp add: upload_loop_step)
      have "put_chunks reqs' =
          put_chunks ((reqs @ [PartRequest objectKey uploadId (partNumber (chunk_of fsize i))])
               @ [PutRequest url (chunk_of fsize i)]) @ map (chunk_of fsize) [i + 1..<started]
          \<and> i + 1 \<le> started"
      proof (rule "1.IH"[OF True refl refl _ _ ])
        show "part_response e (partNumber (chunk_of fsize i)) = Inr body"
          using body by (simp add: chunk_of_def Let_def)
        show "get_prop body ''url'' = Inr url"
          by (rule body)
        show "upload_loop e fsize objectKey uploadId nchunks (i + 1)
           ((reqs @ [PartRequest objectKey uploadId (partNumber (chunk_of fsize i))]) @
            [PutRequest url (chunk_of fsize i)]) = (reqs', started, thrown)"
          using next_run Inr by (simp add: part_requests_def chunk_of_def Let_def)
        show "i + 1 \<le> nchunks"
          using True by simp
      qed
      then show ?thesis
        by (simp add: put_chunks_append upt_conv_Cons)
    qed
  qed
qed

lemma take_chunk_plan:
  "started \<le> totalChunks fsize \<Longrightarrow> take started (chunk_plan fsize) = map (chunk_of fsize) [0..<started]"
  by (simp add: chunk_plan_map take_map min_def)

lemma uploadFile_puts_prefix:
  assumes sel: "file_sel st = Some f"
  shows "\<exists>started\<le>totalChunks (file_size f).
           put_chunks (requests (uploadFile e st))
             = put_chunks (requests st) @ take started (chunk_plan (file_size f))"
proof -
  let ?n = "totalChunks (file_size f)"
  let ?key = "decimal (now e) @ ''_'' @ file_name f"
  let ?st0 = "st\<lparr>uploading := True, error := None, progress := 0\<rparr>"
  let ?st1 = "?st0\<lparr>requests := requests ?st0 @ [InitRequest ?key]\<rparr>"
  let ?P = "\<lambda>st'. \<exists>started\<le>?n. put_chunks (requests st')
             = put_chunks (requests st) @ take started (chunk_plan (file_size f))"
  have early: "?P ?st1"
    by (intro exI[of _ 0]) (simp add: put_chunks_append)
  have "?P (fst (upload_try e f ?st0))"
  proof (cases "init_response e")
    case (Inl ex0)
    with early show ?thesis
      by (simp add: upload_try_def Let_def)
  next
    case body: (Inr body)
    show ?thesis
    proof (cases "get_prop body ''uploadId''")
      case (Inl ex0)
      with body early show ?thesis
        by (simp add: upload_try_def Let_def)
    next
      case uid: (Inr uploadId)
      show ?thesis
      proof (cases "truthy uploadId")
        case False
        with body uid early show ?thesis
          by (simp add: upload_try_def Let_def)
      next
        case True
        obtain reqs started thrown where
          loop: "upload_loop e (file_size f) ?key uploadId ?n 0 (requests ?st1) = (reqs, started, thrown)"
          by (cases "upload_loop e (file_size f) ?key uploadId ?n 0 (requests ?st1)") auto
        have started: "started \<le> ?n"
          using upload_loop_shape[OF loop] by simp
        have "put_chunks reqs = put_chunks (requests ?st1) @ map (chunk_of (file_size f)) [0..<started]"
          using upload_loop_puts[OF loop] by simp
        then have puts: "put_chunks reqs = put_chunks (requests st) @ take started (chunk_plan (file_size f))"
          by (simp add: put_chunks_append take_chunk_plan[OF started])
        obtain st2 parts thrown2 where
          chunks: "upload_chunks e f ?n ?key uploadId ?st1 = (st2, parts, thrown2)"
          by (cases "upload_chunks e f ?n ?key uploadId ?st1") auto
        then have st2: "requests st2 = reqs"
          using loop by (auto simp: upload_chunks_def split: prod.splits)
        show ?thesis
        proof (cases thrown2)
          case (Some ex)
          then have "upload_try e f ?st0 = (st2, Some ex)"
            using chunks by (simp add: upload_try_started[OF body uid True])
          then show ?thesis
            using started puts st2 by auto
        next
          case None
          obtain st3 thrown3 where
            committed: "complete_upload e ?key uploadId parts st2 = (st3, thrown3)"
            and reqs3: "requests st3 = requests st2 @ [CompleteRequest ?key uploadId parts]"
            using complete_upload_effects[of e ?key uploadId parts st2] by auto
          have "upload_try e f ?st0 = (st3, thrown3)"
            using chunks None committed by (simp add: upload_try_started[OF body uid True])
          then show ?thesis
            using started puts st2 reqs3 by (auto simp: put_chunks_append)
        qed
      qed
    qed
  qed
  moreover have "requests (uploadFile e st) = requests (fst (upload_try e f ?st0))"
    using sel catch_finally_effects[of "fst (upload_try e f ?st0)" "snd (upload_try e f ?st0)"]
    by (simp add: uploadFile_def)
  ultimately show ?thesis
    by simp
qed

lemma issued_negotiated:
  fixes e :: env and st :: state and f :: File
  defines "n \<equiv> totalChunks (file_size f)"
    and "objectKey \<equiv> decimal (now e) @ ''_'' @ file_name f"
  assumes sel: "file_sel st = Some f"
    and init: "init_response e = Inr body" "get_prop body ''uploadId'' = Inr uploadId" "truthy uploadId"
    and urls: "\<forall>k\<in>{1..n}. \<not> isl (url_of e k)"
  shows "\<exists>commit. requests (uploadFile e st) = requests st @ issued e st
      \<and> issued e st = InitRequest objectKey
           # concat (map (part_requests e objectKey uploadId) (chunk_plan (file_size f))) @ commit
      \<and> put_chunks commit = [] \<and> requested_parts commit = []"
proof -
  let ?R = "requests st @ [InitRequest objectKey]
              @ concat (map (part_requests e objectKey uploadId) (chunk_plan (file_size f)))"
  let ?settled = "filter (\<lambda>k. \<not> isl (part_result e k)) (settle_schedule e n)"
  let ?st2 = "st\<lparr>uploading := True, error := None, requests := ?R,
                progress := (add_percent n ^^ length ?settled) 0\<rparr>"
  have run: "uploadFile e st =
    catch_finally
     (case promise_all e n of
        Some ex \<Rightarrow> (?st2, Some ex)
      | None \<Rightarrow> complete_upload e objectKey uploadId (map (\<lambda>k. projr (part_result e k)) ?settled) ?st2)"
    unfolding n_def objectKey_def
    by (rule uploadFile_negotiated[OF sel init urls[unfolded n_def]])
  have "\<exists>commit. requests (uploadFile e st) = ?R @ commit
      \<and> put_chunks commit = [] \<and> requested_parts commit = []"
  proof (cases "promise_all e n")
    case (Some ex)
    then have "requests (uploadFile e st) = ?R @ []"
      by (simp add: run)
    then show ?thesis
      by (intro exI[of _ "[]"]) simp
  next
    case None
    let ?parts = "map (\<lambda>k. projr (part_result e k)) ?settled"
    obtain st3 thrown3 where
      committed: "complete_upload e objectKey uploadId ?parts ?st2 = (st3, thrown3)"
      and reqs3: "requests st3 = requests ?st2 @ [CompleteRequest objectKey uploadId ?parts]"
      using complete_upload_effects[of e objectKey uploadId ?parts ?st2] by auto
    have "requests (uploadFile e st) = requests st3"
      using None committed catch_finally_effects[of st3 thrown3] by (simp add: run)
    then have "requests (uploadFile e st) = ?R @ [CompleteRequest objectKey uploadId ?parts]"
      using reqs3 by simp
    then show ?thesis
      by (intro exI[of _ "[CompleteRequest objectKey uploadId ?parts]"]) simp
  qed
  then obtain commit where reqs: "requests (uploadFile e st) = ?R @ commit"
    and commit: "put_chunks commit = []" "requested_parts commit = []"
    by blast
  have "issued e st = InitRequest objectKey
           # concat (map (part_requests e objectKey uploadId) (chunk_plan (file_size f))) @ commit"
    by (simp add: issued_def reqs)
  with reqs commit show ?thesis
    by (intro exI[of _ commit]) simp
qed

subsection \<open>The progress value\<close>


lemma filter_take_mono:
  "j \<le> j' \<Longrightarrow> length (filter P (take j xs)) \<le> length (filter P (take j' xs))"
proof -
  assume "j \<le> j'"
  then have "take j xs = take j (take j' xs)"
    by (simp add: min_def)
  moreover have "length (filter P (take j (take j' xs))) \<le> length (filter P (take j (take j' xs) @ drop j (take j' xs)))"
    by (simp only: filter_append length_append le_add1)
  ultimately show ?thesis
    by (simp only: append_take_drop_id)
qed

lemma totalChunks_accepted:
  "file_size f \<le> 2 * 1024 * 1024 * 1024 \<Longrightarrow> totalChunks (file_size f) \<le> 410"
  by (simp add: totalChunks_div CHUNK_SIZE_def)

section \<open>The concrete runs, evaluated\<close>

lemma decimal_small:
  "decimal (Suc 0) = ''1''" "decimal 1 = ''1''" "decimal 2 = ''2''" "decimal 3 = ''3''"
  "decimal 1700000000000 = ''1700000000000''"
  by (simp_all add: decimal.simps digit_def)

lemma video_fields:
  "file_size empty_video = 0" "file_name empty_video = ''empty.mp4''"
  "file_size tiny_video = 1" "file_name tiny_video = ''tiny.mp4''"
  "file_size two_part_video = 5242881" "file_name two_part_video = ''clip.mp4''"
  "file_size video_12MiB = 12582912" "file_name video_12MiB = ''talk.mp4''"
  "file_size video_45MiB = 47185920" "file_name video_45MiB = ''film.mp4''"
  by (simp_all add: empty_video_def tiny_video_def two_part_video_def video_12MiB_def video_45MiB_def)

lemma accepted_videos:
  "handleFile empty_video idle = idle\<lparr>file_sel := Some empty_video\<rparr>"
  "handleFile tiny_video idle = idle\<lparr>file_sel := Some tiny_video\<rparr>"
  "handleFile two_part_video idle = idle\<lparr>file_sel := Some two_part_video\<rparr>"
  "handleFile video_12MiB idle = idle\<lparr>file_sel := Some video_12MiB\<rparr>"
  "handleFile video_45MiB idle = idle\<lparr>file_sel := Some video_45MiB\<rparr>"
  by (simp_all add: handleFile_def idle_def setTaskId_def startsWith_def
        tiny_video_def two_part_video_def video_12MiB_def video_45MiB_def empty_video_def)

lemma selected_video:
  "file_sel (idle\<lparr>file_sel := Some f\<rparr>) = Some f"
  "idle\<lparr>file_sel := Some f\<rparr> =
     \<lparr>file_sel = Some f, error = None, uploading = False, progress = 0, taskId = JNull,
      processingStatus = JNull, polling = False, requests = []\<rparr>"
  by (simp_all add: idle_def)

lemma parts_upto:
  "{Suc 0..0} = {}" "{Suc 0..Suc 0} = {Suc 0}" "{Suc 0..2} = {Suc 0, 2}" "{Suc 0..3} = {Suc 0, 2, 3}"
  by auto

lemma chunk_counts:
  "totalChunks 0 = 0" "totalChunks (Suc 0) = 1" "totalChunks 5242881 = 2" "totalChunks 12582912 = 3"
  "totalChunks 47185920 = 9"
  by (simp_all add: totalChunks_div CHUNK_SIZE_def)

lemma chunk_plans:
  "chunk_plan 0 = []"
  "chunk_plan (Suc 0) = [\<lparr>partNumber = 1, start = 0, endpos = 1\<rparr>]"
  "chunk_plan 5242881 = [\<lparr>partNumber = 1, start = 0, endpos = 5242880\<rparr>,
                         \<lparr>partNumber = 2, start = 5242880, endpos = 5242881\<rparr>]"
  by (simp_all add: chunk_plan_map chunk_counts chunk_of_def CHUNK_SIZE_def upt_conv_Cons)

lemma chunk_plan_12MiB_Suc:
  "chunk_plan 12582912 =
     [\<lparr>partNumber = Suc 0, start = 0, endpos = 5242880\<rparr>,
      \<lparr>partNumber = 2, start = 5242880, endpos = 10485760\<rparr>,
      \<lparr>partNumber = 3, start = 10485760, endpos = 12582912\<rparr>]"
  by (simp add: chunk_plan_12MiB)

lemma backend_ok_fields:
  "now backend_ok = 1700000000000"
  "init_response backend_ok = Inr (JObj [(''uploadId'', JStr ''u1'')])"
  "part_response backend_ok k = Inr (JObj [(''url'', JStr (''https://store/part/'' @ decimal k))])"
  "put_response backend_ok k = Inr \<lparr>ok = True, etag = Some (''\"tag'' @ decimal k @ ''\"'')\<rparr>"
  "settle_order backend_ok = [3, 2, 1]"
  "settled_before_join backend_ok = 0"
  "complete_response backend_ok = Inr (True, JObj [(''taskId'', JStr ''t1'')])"
  by (simp_all add: backend_ok_def)

lemma url_of_backend_ok:
  "url_of backend_ok k = Inr (JStr (''https://store/part/'' @ decimal k))"
  by (simp add: url_of_def backend_ok_def)

lemma session_u1:
  "get_prop (JObj [(''uploadId'', JStr ''u1'')]) ''uploadId'' = Inr (JStr ''u1'')" "truthy (JStr ''u1'')"
  by simp_all

lemma schedules_backend_ok:
  "settle_schedule backend_ok 0 = []"
  "settle_schedule backend_ok (Suc 0) = [1]"
  "settle_schedule backend_ok 2 = [2, 1]"
  "settle_schedule backend_ok 3 = [3, 2, 1]"
  by (simp_all add: settle_schedule_def backend_ok_fields upt_conv_Cons)

lemma part_result_backend_ok:
  "part_result backend_ok (Suc 0) = Inr (1, ''tag1'')"
  "part_result backend_ok 2 = Inr (2, ''tag2'')"
  "part_result backend_ok 3 = Inr (3, ''tag3'')"
  by (simp_all add: part_result_def backend_ok_fields decimal_small)


lemma promise_all_backend_ok:
  "promise_all backend_ok 0 = None" "promise_all backend_ok (Suc 0) = None"
  "promise_all backend_ok 2 = None" "promise_all backend_ok 3 = None"
  by (simp_all add: promise_all_None parts_upto part_result_backend_ok)

lemma urls_backend_ok: "\<forall>k\<in>{1..n}. \<not> isl (url_of backend_ok k)"
  by (simp add: url_of_backend_ok)

lemma commit_backend_ok:
  "complete_upload backend_ok objectKey uploadId parts st =
     (st\<lparr>requests := requests st @ [CompleteRequest objectKey uploadId parts],
         taskId := JStr ''t1'',
         polling := (if same_value (taskId st) (JStr ''t1'') then polling st else True),
         processingStatus := JStr ''Upload complete. Waiting for processing to start...''\<rparr>, None)"
  by (simp add: complete_upload_def backend_ok_fields setTaskId_def Let_def)

text \<open>The doubles that the progress of an upload of 1, 2, 3 and 9 parts passes through.\<close>

lemma progress_steps:
  "add_percent (Suc 0) 0 = 100"
  "add_percent 2 0 = 50"
  "add_percent 2 50 = 100"
  "add_percent 3 0 = 2345624805922133 / 70368744177664"
  "add_percent 3 (2345624805922133 / 70368744177664) = 2345624805922133 / 35184372088832"
  "add_percent 3 (2345624805922133 / 35184372088832) = 7036874417766399 / 70368744177664"
  by (simp_all add: add_percent_def dbl_def round_half_even_def exponent_def compute_floorlog Let_def)




lemma run_two_part_ok:
  "uploadFile backend_ok (handleFile two_part_video idle) =
     \<lparr>file_sel = Some two_part_video, error = None, uploading = False, progress = 100,
      taskId = JStr ''t1'',
      processingStatus = JStr ''Upload complete. Waiting for processing to start...'',
      polling = True,
      requests =
        [InitRequest ''1700000000000_clip.mp4'',
         PartRequest ''1700000000000_clip.mp4'' (JStr ''u1'') 1,
         PutRequest (JStr ''https://store/part/1'') \<lparr>partNumber = 1, start = 0, endpos = 5242880\<rparr>,
         PartRequest ''1700000000000_clip.mp4'' (JStr ''u1'') 2,
         PutRequest (JStr ''https://store/part/2'') \<lparr>partNumber = 2, start = 5242880, endpos = 5242881\<rparr>,
         CompleteRequest ''1700000000000_clip.mp4'' (JStr ''u1'') [(2, ''tag2''), (1, ''tag1'')]]\<rparr>"
proof -
  have sel: "file_sel (handleFile two_part_video idle) = Some two_part_video"
    by (simp add: accepted_videos)
  show ?thesis
    by (subst uploadFile_negotiated[OF sel backend_ok_fields(2) session_u1])
       (simp_all add: urls_backend_ok video_fields chunk_counts promise_all_backend_ok
          schedules_backend_ok part_result_backend_ok commit_backend_ok chunk_plans
          part_requests_def url_of_backend_ok backend_ok_fields decimal_small accepted_videos
          selected_video progress_steps)
qed

lemma run_12MiB_ok:
  "uploadFile backend_ok (handleFile video_12MiB idle) =
     \<lparr>file_sel = Some video_12MiB, error = None, uploading = False,
      progress = 7036874417766399 / 70368744177664,
      taskId = JStr ''t1'',
      processingStatus = JStr ''Upload complete. Waiting for processing to start...'',
      polling = True,
      requests =
        [InitRequest ''1700000000000_talk.mp4'',
         PartRequest ''1700000000000_talk.mp4'' (JStr ''u1'') 1,
         PutRequest (JStr ''https://store/part/1'') \<lparr>partNumber = 1, start = 0, endpos = 5242880\<rparr>,
         PartRequest ''1700000000000_talk.mp4'' (JStr ''u1'') 2,
         PutRequest (JStr ''https://store/part/2'') \<lparr>partNumber = 2, start = 5242880, endpos = 10485760\<rparr>,
         PartRequest ''1700000000000_talk.mp4'' (JStr ''u1'') 3,
         PutRequest (JStr ''https://store/part/3'') \<lparr>partNumber = 3, start = 10485760, endpos = 12582912\<rparr>,
         CompleteRequest ''1700000000000_talk.mp4'' (JStr ''u1'')
           [(3, ''tag3''), (2, ''tag2''), (1, ''tag1'')]]\<rparr>"
proof -
  have sel: "file_sel (handleFile video_12MiB idle) = Some video_12MiB"
    by (simp add: accepted_videos)
  show ?thesis
    by (subst uploadFile_negotiated[OF sel backend_ok_fields(2) session_u1])
       (simp_all add: urls_backend_ok video_fields chunk_counts promise_all_backend_ok
          schedules_backend_ok part_result_backend_ok commit_backend_ok chunk_plan_12MiB_Suc
          part_requests_def url_of_backend_ok backend_ok_fields decimal_small accepted_videos
          selected_video progress_steps)
qed

lemma run_empty_ok:
  "uploadFile backend_ok (handleFile empty_video idle) =
     \<lparr>file_sel = Some empty_video, error = None, uploading = False, progress = 0,
      taskId = JStr ''t1'',
      processingStatus = JStr ''Upload complete. Waiting for processing to start...'',
      polling = True,
      requests =
        [InitRequest ''1700000000000_empty.mp4'',
         CompleteRequest ''1700000000000_empty.mp4'' (JStr ''u1'') []]\<rparr>"
proof -
  have sel: "file_sel (handleFile empty_video idle) = Some empty_video"
    by (simp add: accepted_videos)
  show ?thesis
    by (subst uploadFile_negotiated[OF sel backend_ok_fields(2) session_u1])
       (simp_all add: urls_backend_ok video_fields chunk_counts promise_all_backend_ok
          schedules_backend_ok part_result_backend_ok commit_backend_ok chunk_plans
          part_requests_def url_of_backend_ok backend_ok_fields decimal_small accepted_videos
          selected_video progress_steps)
qed


text \<open>The 12 MiB upload in which part 2 comes back without an \<open>ETag\<close>.\<close>

lemma backend_no_etag_fields:
  "now backend_no_etag = 1700000000000"
  "init_response backend_no_etag = Inr (JObj [(''uploadId'', JStr ''u1'')])"
  "url_of backend_no_etag k = Inr (JStr (''https://store/part/'' @ decimal k))"
  "put_response backend_no_etag (Suc 0) = Inr \<lparr>ok = True, etag = Some ''\"tag1\"''\<rparr>"
  "put_response backend_no_etag 2 = Inr \<lparr>ok = True, etag = None\<rparr>"
  "put_response backend_no_etag 3 = Inr \<lparr>ok = True, etag = Some ''\"tag3\"''\<rparr>"
  "settled_before_join backend_no_etag = 0"
  "settle_schedule backend_no_etag 3 = [3, 2, 1]"
  by (simp_all add: backend_no_etag_def backend_ok_def url_of_def settle_schedule_def upt_conv_Cons
        decimal_small)

lemma part_result_no_etag:
  "part_result backend_no_etag (Suc 0) = Inr (1, ''tag1'')"
  "part_result backend_no_etag 2 = Inl (Error ''ETag not found for part 2.'')"
  "part_result backend_no_etag 3 = Inr (3, ''tag3'')"
  by (simp_all add: part_result_def backend_no_etag_fields decimal_small)

lemma promise_all_no_etag:
  "promise_all backend_no_etag 3 = Some (Error ''ETag not found for part 2.'')"
  by (simp add: promise_all_def backend_no_etag_fields part_result_no_etag)

lemma run_12MiB_no_etag:
  "uploadFile backend_no_etag (handleFile video_12MiB idle) =
     \<lparr>file_sel = Some video_12MiB, error = Some ''ETag not found for part 2.'', uploading = False,
      progress = 2345624805922133 / 35184372088832, taskId = JNull, processingStatus = JNull, polling = False,
      requests =
        [InitRequest ''1700000000000_talk.mp4'',
         PartRequest ''1700000000000_talk.mp4'' (JStr ''u1'') 1,
         PutRequest (JStr ''https://store/part/1'') \<lparr>partNumber = 1, start = 0, endpos = 5242880\<rparr>,
         PartRequest ''1700000000000_talk.mp4'' (JStr ''u1'') 2,
         PutRequest (JStr ''https://store/part/2'') \<lparr>partNumber = 2, start = 5242880, endpos = 10485760\<rparr>,
         PartRequest ''1700000000000_talk.mp4'' (JStr ''u1'') 3,
         PutRequest (JStr ''https://store/part/3'') \<lparr>partNumber = 3, start = 10485760, endpos = 12582912\<rparr>]\<rparr>"
proof -
  have sel: "file_sel (handleFile video_12MiB idle) = Some video_12MiB"
    by (simp add: accepted_videos)
  have urls: "\<forall>k\<in>{1..totalChunks (file_size video_12MiB)}. \<not> isl (url_of backend_no_etag k)"
    by (simp add: backend_no_etag_fields)
  show ?thesis
    by (subst uploadFile_negotiated[OF sel backend_no_etag_fields(2) session_u1 urls])
       (simp add: video_fields chunk_counts promise_all_no_etag
          backend_no_etag_fields part_result_no_etag chunk_plan_12MiB_Suc
          part_requests_def decimal_small accepted_videos selected_video progress_steps)
qed

text \<open>The two-part upload in which part 2 is rejected by the network and part 1 answers with an error status.\<close>

lemma backend_two_failures_fields:
  "now backend_two_failures = 1700000000000"
  "init_response backend_two_failures = Inr (JObj [(''uploadId'', JStr ''u1'')])"
  "url_of backend_two_failures k = Inr (JStr (''https://store/part/'' @ decimal k))"
  "put_response backend_two_failures (Suc 0) = Inr \<lparr>ok = False, etag = None\<rparr>"
  "put_response backend_two_failures 2 = Inl (Error ''Failed to fetch'')"
  "settled_before_join backend_two_failures = 0"
  "settle_schedule backend_two_failures 2 = [2, 1]"
  by (simp_all add: backend_two_failures_def backend_ok_def url_of_def settle_schedule_def upt_conv_Cons)

lemma part_result_two_failures:
  "part_result backend_two_failures (Suc 0) = Inl (Error ''Upload of part 1 failed.'')"
  "part_result backend_two_failures 2 = Inl (Error ''Failed to fetch'')"
  by (simp_all add: part_result_def backend_two_failures_fields decimal_small)

lemma promise_all_two_failures:
  "promise_all backend_two_failures 2 = Some (Error ''Failed to fetch'')"
  by (simp add: promise_all_def backend_two_failures_fields part_result_two_failures)

lemma run_two_failures:
  "uploadFile backend_two_failures (handleFile two_part_video idle) =
     \<lparr>file_sel = Some two_part_video, error = Some ''Failed to fetch'', uploading = False,
      progress = 0, taskId = JNull, processingStatus = JNull, polling = False,
      requests =
        [InitRequest ''1700000000000_clip.mp4'',
         PartRequest ''1700000000000_clip.mp4'' (JStr ''u1'') 1,
         PutRequest (JStr ''https://store/part/1'') \<lparr>partNumber = 1, start = 0, endpos = 5242880\<rparr>,
         PartRequest ''1700000000000_clip.mp4'' (JStr ''u1'') 2,
         PutRequest (JStr ''https://store/part/2'') \<lparr>partNumber = 2, start = 5242880, endpos = 5242881\<rparr>]\<rparr>"
proof -
  have sel: "file_sel (handleFile two_part_video idle) = Some two_part_video"
    by (simp add: accepted_videos)
  have urls: "\<forall>k\<in>{1..totalChunks (file_size two_part_video)}. \<not> isl (url_of backend_two_failures k)"
    by (simp add: backend_two_failures_fields)
  show ?thesis
    by (subst uploadFile_negotiated[OF sel backend_two_failures_fields(2) session_u1 urls])
       (simp add: video_fields chunk_counts promise_all_two_failures
          backend_two_failures_fields part_result_two_failures chunk_plans
          part_requests_def decimal_small accepted_videos selected_video progress_steps)
qed

section \<open>Object validation\<close>

text \<open>
  \<^bold>\<open>C6.\<close> A selected object whose media type does not start with \<open>video/\<close>, or whose size
  exceeds 2 GiB, is rejected by \<open>handleFile\<close> on the spot: the error message is set, no file
  is kept for upload, and no call is issued, neither by \<open>handleFile\<close> nor by an
  \<open>uploadFile\<close> that follows (it finds no file and stops at once).
\<close>

theorem invalid_file_rejected:
  assumes "\<not> startsWith (file_type f) ''video/'' \<or> file_size f > 2 * 1024 * 1024 * 1024"
  shows "file_sel (handleFile f st) = None
       \<and> (error (handleFile f st) = Some ''Invalid file type. Please select a video file.''
          \<or> error (handleFile f st) = Some ''File is too large. The maximum file size is 2GB.'')
       \<and> requests (handleFile f st) = requests st
       \<and> requests (uploadFile e (handleFile f st)) = requests st
       \<and> error (uploadFile e (handleFile f st)) = Some ''No file selected.''"
proof -
  have rejected: "file_sel (handleFile f st) = None"
    and msg: "error (handleFile f st) = Some ''Invalid file type. Please select a video file.''
          \<or> error (handleFile f st) = Some ''File is too large. The maximum file size is 2GB.''"
    and quiet: "requests (handleFile f st) = requests st"
    using assms by (auto simp: handleFile_def)
  from rejected have "uploadFile e (handleFile f st) = (handleFile f st)\<lparr>error := Some ''No file selected.''\<rparr>"
    by (rule uploadFile_no_file)
  with rejected msg quiet show ?thesis
    by simp
qed

text \<open>An instance: a video of 3 GiB.\<close>

theorem invalid_file_rejected_witness:
  "file_size video_3GiB > 2 * 1024 * 1024 * 1024
   \<and> file_sel (handleFile video_3GiB idle) = None
   \<and> error (handleFile video_3GiB idle) = Some ''File is too large. The maximum file size is 2GB.''
   \<and> requests (uploadFile backend_ok (handleFile video_3GiB idle)) = []"
proof -
  have big: "file_size video_3GiB > 2 * 1024 * 1024 * 1024"
    by (simp add: video_3GiB_def)
  then have h: "\<not> startsWith (file_type video_3GiB) ''video/'' \<or> file_size video_3GiB > 2 * 1024 * 1024 * 1024"
    by (rule disjI2)
  have "error (handleFile video_3GiB idle) = Some ''File is too large. The maximum file size is 2GB.''"
    by (simp add: handleFile_def video_3GiB_def startsWith_def)
  moreover have "requests idle = []"
    by (simp add: idle_def)
  ultimately show ?thesis
    using invalid_file_rejected[OF h, of idle backend_ok] big by simp
qed

text \<open>
  \<^bold>\<open>C8\<close>, as stated, does not hold: \<open>handleFile\<close> has no lower bound on the size. An empty
  video file is accepted; \<open>uploadFile\<close> then computes \<open>totalChunks = 0\<close>, the loop does not
  run, and the commit request carries an empty list of parts.
\<close>

theorem empty_video_accepted:
  "file_size empty_video = 0
   \<and> file_sel (handleFile empty_video idle) = Some empty_video
   \<and> totalChunks (file_size empty_video) = 0
   \<and> requests (uploadFile backend_ok (handleFile empty_video idle))
        = [InitRequest ''1700000000000_empty.mp4'',
           CompleteRequest ''1700000000000_empty.mp4'' (JStr ''u1'') []]"
proof -
  have "file_sel (handleFile empty_video idle) = Some empty_video"
    by (simp add: accepted_videos)
  then show ?thesis
    by (simp add: run_empty_ok video_fields chunk_counts)
qed

text \<open>
  \<^bold>\<open>C8\<close>, as the code has it. \<open>handleFile\<close> accepts an object exactly when its media type
  starts with \<open>video/\<close> and its size is at most 2 GiB. An object of length 0 is accepted
  like any other; the plan for it has no parts, and once the session is initialized the
  commit request is issued with an empty list of parts.
\<close>

theorem validation_checks_type_and_ceiling:
  "(file_sel (handleFile f st) = Some f
      \<longleftrightarrow> startsWith (file_type f) ''video/'' \<and> file_size f \<le> 2147483648)
   \<and> (file_size f = 0 \<longrightarrow> totalChunks (file_size f) = 0 \<and> chunk_plan (file_size f) = [])
   \<and> (file_sel st = Some f \<and> file_size f = 0
        \<and> init_response e = Inr body \<and> get_prop body ''uploadId'' = Inr uploadId \<and> truthy uploadId
      \<longrightarrow> requests (uploadFile e st) =
            requests st @ [InitRequest (decimal (now e) @ ''_'' @ file_name f),
                           CompleteRequest (decimal (now e) @ ''_'' @ file_name f) uploadId []])"
proof (intro conjI impI)
  show "file_sel (handleFile f st) = Some f
      \<longleftrightarrow> startsWith (file_type f) ''video/'' \<and> file_size f \<le> 2147483648"
    by (auto simp: handleFile_def setTaskId_def)
next
  assume "file_size f = 0"
  then show "totalChunks (file_size f) = 0" and "chunk_plan (file_size f) = []"
    by (simp_all add: totalChunks_0 chunk_plan_map)
next
  assume "file_sel st = Some f \<and> file_size f = 0
        \<and> init_response e = Inr body \<and> get_prop body ''uploadId'' = Inr uploadId \<and> truthy uploadId"
  then show "requests (uploadFile e st) =
            requests st @ [InitRequest (decimal (now e) @ ''_'' @ file_name f),
                           CompleteRequest (decimal (now e) @ ''_'' @ file_name f) uploadId []]"
    by (elim conjE) (rule upload_of_empty_file)
qed

text \<open>An instance: the empty video file.\<close>

theorem validation_checks_type_and_ceiling_witness:
  "startsWith (file_type empty_video) ''video/''
   \<and> file_size empty_video = 0
   \<and> file_sel (handleFile empty_video idle) = Some empty_video
   \<and> chunk_plan (file_size empty_video) = []
   \<and> requests (uploadFile backend_ok (handleFile empty_video idle))
        = [InitRequest ''1700000000000_empty.mp4'',
           CompleteRequest ''1700000000000_empty.mp4'' (JStr ''u1'') []]"
proof -
  have t: "startsWith (file_type empty_video) ''video/''" and s: "file_size empty_video = 0"
    by (simp_all add: empty_video_def startsWith_def)
  from validation_checks_type_and_ceiling
         [of empty_video idle backend_ok "JObj [(''uploadId'', JStr ''u1'')]" "JStr ''u1''"]
       validation_checks_type_and_ceiling
         [of empty_video "handleFile empty_video idle" backend_ok
             "JObj [(''uploadId'', JStr ''u1'')]" "JStr ''u1''"]
  show ?thesis
    using t s by (simp add: backend_ok_fields decimal_small video_fields accepted_videos selected_video)
qed

section \<open>Session initialization\<close>

text \<open>
  \<^bold>\<open>C7.\<close> When the body of the initialization response yields no usable \<open>uploadId\<close> (the
  member is absent, or \<open>!uploadId\<close> rejects it, or the body is \<open>null\<close>), \<open>uploadFile\<close> ends
  with an error: \<open>Failed to initialize upload.\<close>, or the \<open>TypeError\<close> of destructuring
  a \<open>null\<close> body. The only call it has issued is the one initialization request: no second
  attempt, no part URL request, no \<open>PUT\<close> and no commit request. The task identifier and
  the interval are left as they were.
\<close>

theorem init_without_uploadId_aborts:
  assumes "file_sel st = Some f"
    and "init_response e = Inr body"
    and "\<forall>uploadId. get_prop body ''uploadId'' = Inr uploadId \<longrightarrow> \<not> truthy uploadId"
  shows "uploadFile e st =
           st\<lparr>uploading := False,
              error := Some (if isl (get_prop body ''uploadId'') then message TypeError
                             else ''Failed to initialize upload.''),
              progress := 0,
              requests := requests st @ [InitRequest (decimal (now e) @ ''_'' @ file_name f)]\<rparr>"
proof (cases "get_prop body ''uploadId''")
  case (Inl ex)
  then have "ex = TypeError"
    by (rule get_prop_throws)
  with Inl assms show ?thesis
    by (simp add: uploadFile_def upload_try_def Let_def)
next
  case (Inr uploadId)
  with assms have "\<not> truthy uploadId"
    by simp
  with Inr assms show ?thesis
    by (simp add: uploadFile_def upload_try_def Let_def)
qed

text \<open>An instance: the backend answers \<open>{}\<close> to the initialization of a 12 MiB upload.\<close>

theorem init_without_uploadId_aborts_witness:
  "file_sel (handleFile video_12MiB idle) = Some video_12MiB
   \<and> init_response backend_no_session = Inr (JObj [])
   \<and> get_prop (JObj []) ''uploadId'' = Inr JUndefined
   \<and> \<not> truthy JUndefined
   \<and> requests (uploadFile backend_no_session (handleFile video_12MiB idle))
        = [InitRequest ''1700000000000_talk.mp4'']
   \<and> error (uploadFile backend_no_session (handleFile video_12MiB idle))
        = Some ''Failed to initialize upload.''"
proof -
  have f: "file_sel (handleFile video_12MiB idle) = Some video_12MiB"
    and r: "requests (handleFile video_12MiB idle) = []"
    by (simp_all add: handleFile_def video_12MiB_def startsWith_def setTaskId_def idle_def)
  have i: "init_response backend_no_session = Inr (JObj [])"
    and n: "now backend_no_session = 1700000000000"
    by (simp_all add: backend_no_session_def backend_ok_def)
  have u: "\<forall>uploadId. get_prop (JObj []) ''uploadId'' = Inr uploadId \<longrightarrow> \<not> truthy uploadId"
    by simp
  have name: "file_name video_12MiB = ''talk.mp4''"
    by (simp add: video_12MiB_def)
  from init_without_uploadId_aborts[OF f i u] f i r n name decimal_small(5) show ?thesis
    by simp
qed

section \<open>The chunks of an upload\<close>

text \<open>
  \<^bold>\<open>C1.\<close> Take an upload of an object of \<open>L \<ge> 1\<close> bytes in which the session is initialized
  and the URL of every part is obtained, so that the loop of \<open>uploadFile\<close> runs to its end, and
  let \<open>plan\<close> be the chunks that this run of \<open>uploadFile\<close> hands to \<open>PUT\<close>, in the order
  of the calls. Then \<open>plan\<close> has exactly \<open>\<lceil>L / CHUNK_SIZE\<rceil>\<close> parts, numbered \<open>1, 2, ...\<close>, and
  these are the part numbers for which a URL was asked; part \<open>i\<close> (from 0) is the non-empty
  byte range from \<open>i * CHUNK_SIZE\<close> to \<open>min ((i + 1) * CHUNK_SIZE) L\<close>; the first range starts
  at 0, the last ends at \<open>L\<close>, each range ends where the next starts, every part but the last
  has \<open>CHUNK_SIZE\<close> bytes, no two ranges overlap and together they are exactly the bytes
  \<open>0 ..< L\<close>. (In a run that stops earlier, the chunks handed to \<open>PUT\<close> are an initial
  segment of this plan: lemma \<open>uploadFile_puts_prefix\<close>.)
\<close>

theorem upload_puts_partition:
  fixes e :: env and st :: state and f :: File
  defines "L \<equiv> file_size f"
  defines "plan \<equiv> put_chunks (issued e st)"
  assumes sel: "file_sel st = Some f" and L: "1 \<le> L"
    and init: "init_response e = Inr body" "get_prop body ''uploadId'' = Inr uploadId" "truthy uploadId"
    and urls: "\<forall>k\<in>{1..totalChunks L}. \<not> isl (url_of e k)"
  shows "requests (uploadFile e st) = requests st @ issued e st
    \<and> length plan = nat \<lceil>real L / real CHUNK_SIZE\<rceil>
    \<and> map partNumber plan = [1..<Suc (length plan)]
    \<and> requested_parts (issued e st) = [1..<Suc (length plan)]
    \<and> (\<forall>i<length plan.
          start (plan ! i) = i * CHUNK_SIZE
        \<and> endpos (plan ! i) = min ((i + 1) * CHUNK_SIZE) L
        \<and> start (plan ! i) < endpos (plan ! i))
    \<and> start (hd plan) = 0
    \<and> endpos (last plan) = L
    \<and> (\<forall>i. Suc i < length plan \<longrightarrow>
          endpos (plan ! i) = start (plan ! Suc i)
        \<and> endpos (plan ! i) - start (plan ! i) = CHUNK_SIZE)
    \<and> (\<forall>i<length plan. \<forall>j<length plan. i \<noteq> j \<longrightarrow>
          {start (plan ! i)..<endpos (plan ! i)} \<inter> {start (plan ! j)..<endpos (plan ! j)} = {})
    \<and> (\<Union>c\<in>set plan. {start c..<endpos c}) = {0..<L}
    \<and> plan = chunk_plan L"
proof -
  from issued_negotiated[OF sel init urls[unfolded L_def]]
  obtain commit where log: "requests (uploadFile e st) = requests st @ issued e st"
    and issued: "issued e st = InitRequest (decimal (now e) @ ''_'' @ file_name f)
           # concat (map (part_requests e (decimal (now e) @ ''_'' @ file_name f) uploadId) (chunk_plan L))
             @ commit"
    and commit: "put_chunks commit = []" "requested_parts commit = []"
    unfolding L_def by blast
  have plan: "plan = chunk_plan L"
    by (simp add: plan_def issued put_chunks_append put_chunks_part_requests commit)
  have asked: "requested_parts (issued e st) = map partNumber plan"
    by (simp add: plan issued requested_parts_append requested_parts_part_requests commit)
  note facts = chunk_plan_facts[OF L, folded plan]
  from facts have numbers: "map partNumber plan = [1..<Suc (length plan)]"
    by (elim conjE)
  from log facts asked[unfolded numbers] plan show ?thesis
    by (intro conjI) (elim conjE, assumption)+
qed

text \<open>
  An instance: the upload of 12 MiB (12582912 bytes) puts 5 MiB, 5 MiB and 2 MiB, as parts
  1, 2 and 3.
\<close>

theorem upload_puts_partition_witness:
  "file_sel (handleFile video_12MiB idle) = Some video_12MiB
   \<and> 1 \<le> file_size video_12MiB
   \<and> put_chunks (issued backend_ok (handleFile video_12MiB idle)) =
       [\<lparr>partNumber = 1, start = 0, endpos = 5242880\<rparr>,
        \<lparr>partNumber = 2, start = 5242880, endpos = 10485760\<rparr>,
        \<lparr>partNumber = 3, start = 10485760, endpos = 12582912\<rparr>]
   \<and> requested_parts (issued backend_ok (handleFile video_12MiB idle)) = [1, 2, 3]
   \<and> nat \<lceil>real (file_size video_12MiB) / real CHUNK_SIZE\<rceil> = 3
   \<and> (\<Union>c\<in>set (put_chunks (issued backend_ok (handleFile video_12MiB idle))). {start c..<endpos c})
       = {0..<12582912}"
proof -
  let ?st = "handleFile video_12MiB idle"
  have sel: "file_sel ?st = Some video_12MiB"
    by (simp add: accepted_videos)
  have L: "1 \<le> file_size video_12MiB"
    by (simp add: video_fields)
  have urls: "\<forall>k\<in>{1..totalChunks (file_size video_12MiB)}. \<not> isl (url_of backend_ok k)"
    by (simp add: url_of_backend_ok)
  have before: "requests ?st = []"
    by (simp add: accepted_videos selected_video)
  have puts: "put_chunks (issued backend_ok ?st) =
       [\<lparr>partNumber = 1, start = 0, endpos = 5242880\<rparr>,
        \<lparr>partNumber = 2, start = 5242880, endpos = 10485760\<rparr>,
        \<lparr>partNumber = 3, start = 10485760, endpos = 12582912\<rparr>]"
    and asked: "requested_parts (issued backend_ok ?st) = [1, 2, 3]"
    by (simp_all add: issued_def before run_12MiB_ok)
  note plan = upload_puts_partition[OF sel L backend_ok_fields(2) session_u1 urls]
  from plan have "length (put_chunks (issued backend_ok ?st))
      = nat \<lceil>real (file_size video_12MiB) / real CHUNK_SIZE\<rceil>"
    by (elim conjE)
  moreover from plan have "(\<Union>c\<in>set (put_chunks (issued backend_ok ?st)). {start c..<endpos c})
      = {0..<file_size video_12MiB}"
    by (elim conjE)
  ultimately show ?thesis
    using sel L puts asked by (simp add: video_fields)
qed

section \<open>The commit request\<close>

text \<open>
  \<^bold>\<open>C2\<close>, as stated, does not hold: the entries of the commit request are not ordered by
  \<open>PartNumber\<close> when the transfers complete in another order. In an upload of two parts
  whose transfers both succeed, part 2 settling first, the commit request lists part 2
  before part 1.
\<close>

theorem commit_out_of_order:
  "\<not> isl (part_result backend_ok 1) \<and> \<not> isl (part_result backend_ok 2)
   \<and> filter is_complete (requests (uploadFile backend_ok (handleFile two_part_video idle)))
       = [CompleteRequest ''1700000000000_clip.mp4'' (JStr ''u1'') [(2, ''tag2''), (1, ''tag1'')]]
   \<and> \<not> sorted (map fst [(2::nat, ''tag2''), (1, ''tag1'')])"
  by (simp add: run_two_part_ok part_result_backend_ok)

text \<open>
  \<^bold>\<open>C2\<close>, as the code has it. When the session is initialized, every part URL is obtained
  and every part transfer succeeds, \<open>uploadFile\<close> issues the initialization request, then
  for each part of the plan, in part order, the URL request and the \<open>PUT\<close>, and then one
  commit request. Its \<open>parts\<close> array has exactly one entry for each part \<open>1..n\<close>: the part
  number with the part's \<open>ETag\<close>, quotes removed. The entries stand in the order in which the
  transfers settled (each \<open>.then\<close> callback pushes its entry, and nothing sorts the array);
  they are ordered by \<open>PartNumber\<close> exactly when the transfers settle in part order.
\<close>

theorem commit_lists_parts_in_settle_order:
  fixes e :: env and st :: state and f :: File
  defines "n \<equiv> totalChunks (file_size f)"
    and "objectKey \<equiv> decimal (now e) @ ''_'' @ file_name f"
  assumes sel: "file_sel st = Some f"
    and init: "init_response e = Inr body" "get_prop body ''uploadId'' = Inr uploadId" "truthy uploadId"
    and urls: "\<forall>k\<in>{1..n}. \<not> isl (url_of e k)"
    and puts: "\<forall>k\<in>{1..n}. \<not> isl (part_result e k)"
  shows "requests (uploadFile e st) =
           requests st @ [InitRequest objectKey]
             @ concat (map (part_requests e objectKey uploadId) (chunk_plan (file_size f)))
             @ [CompleteRequest objectKey uploadId
                  (map (\<lambda>k. (k, filter (\<lambda>c. c \<noteq> CHR 0x22) (the (etag (projr (put_response e k))))))
                     (settle_schedule e n))]
       \<and> distinct (settle_schedule e n)
       \<and> set (settle_schedule e n) = {1..n}
       \<and> (sorted (settle_schedule e n) \<longleftrightarrow> settle_schedule e n = [1..<Suc n])"
proof -
  let ?st0 = "st\<lparr>uploading := True, error := None, progress := 0\<rparr>"
  let ?st1 = "?st0\<lparr>requests := requests ?st0 @ [InitRequest objectKey]\<rparr>"
  let ?entry = "\<lambda>k. (k, filter (\<lambda>c. c \<noteq> CHR 0x22) (the (etag (projr (put_response e k)))))"
  have all_ok: "filter (\<lambda>k. \<not> isl (part_result e k)) (settle_schedule e n) = settle_schedule e n"
    using puts by (simp add: set_settle_schedule)
  have "map (\<lambda>k. projr (part_result e k)) (settle_schedule e n) = map ?entry (settle_schedule e n)"
  proof (rule map_cong[OF refl])
    fix k
    assume "k \<in> set (settle_schedule e n)"
    then have "\<not> isl (part_result e k)"
      using puts by (simp add: set_settle_schedule)
    then show "projr (part_result e k) = ?entry k"
      by (simp add: part_result_ok)
  qed
  with all_ok have parts: "map (\<lambda>k. projr (part_result e k))
      (filter (\<lambda>k. \<not> isl (part_result e k)) (settle_schedule e n)) = map ?entry (settle_schedule e n)"
    by simp
  have joined: "promise_all e n = None"
    using puts by (simp add: promise_all_None)
  obtain st2 where chunks: "upload_chunks e f n objectKey uploadId ?st1 = (st2, map ?entry (settle_schedule e n), None)"
    and reqs2: "requests st2 = requests st @ [InitRequest objectKey]
                  @ concat (map (part_requests e objectKey uploadId) (chunk_plan (file_size f)))"
    using upload_chunks_ok[OF urls, of f objectKey uploadId ?st1] parts joined
    by (simp add: chunk_plan_map n_def)
  obtain st3 thrown where committed: "complete_upload e objectKey uploadId (map ?entry (settle_schedule e n)) st2 = (st3, thrown)"
    and reqs3: "requests st3 = requests st2 @ [CompleteRequest objectKey uploadId (map ?entry (settle_schedule e n))]"
    using complete_upload_effects[of e objectKey uploadId "map ?entry (settle_schedule e n)" st2] by blast
  have "upload_try e f ?st0 = (st3, thrown)"
    using chunks committed by (simp add: upload_try_started[OF init] n_def objectKey_def)
  then have "uploadFile e st = catch_finally (st3, thrown)"
    using sel by (simp add: uploadFile_def)
  then have "requests (uploadFile e st) = requests st3"
    by (simp add: catch_finally_effects)
  with reqs2 reqs3 show ?thesis
    by (simp add: distinct_settle_schedule set_settle_schedule settle_schedule_sorted del: upt_Suc)
qed

text \<open>An instance: the 12 MiB upload whose three transfers settle last part first.\<close>

theorem commit_lists_parts_in_settle_order_witness:
  "file_sel (handleFile video_12MiB idle) = Some video_12MiB
   \<and> init_response backend_ok = Inr (JObj [(''uploadId'', JStr ''u1'')])
   \<and> get_prop (JObj [(''uploadId'', JStr ''u1'')]) ''uploadId'' = Inr (JStr ''u1'')
   \<and> truthy (JStr ''u1'')
   \<and> totalChunks (file_size video_12MiB) = 3
   \<and> \<not> isl (part_result backend_ok 1) \<and> \<not> isl (part_result backend_ok 2)
   \<and> \<not> isl (part_result backend_ok 3)
   \<and> settle_schedule backend_ok 3 = [3, 2, 1]
   \<and> filter is_complete (requests (uploadFile backend_ok (handleFile video_12MiB idle)))
       = [CompleteRequest ''1700000000000_talk.mp4'' (JStr ''u1'')
            [(3, ''tag3''), (2, ''tag2''), (1, ''tag1'')]]"
proof -
  have sel: "file_sel (handleFile video_12MiB idle) = Some video_12MiB"
    by (simp add: accepted_videos)
  have n: "totalChunks (file_size video_12MiB) = 3"
    by (simp add: video_fields chunk_counts)
  have puts: "\<forall>k\<in>{1..totalChunks (file_size video_12MiB)}. \<not> isl (part_result backend_ok k)"
    by (simp add: n parts_upto part_result_backend_ok)
  have "requests (uploadFile backend_ok (handleFile video_12MiB idle)) =
           requests (handleFile video_12MiB idle)
             @ [InitRequest (decimal (now backend_ok) @ ''_'' @ file_name video_12MiB)]
             @ concat (map (part_requests backend_ok (decimal (now backend_ok) @ ''_'' @ file_name video_12MiB)
                              (JStr ''u1''))
                         (chunk_plan (file_size video_12MiB)))
             @ [CompleteRequest (decimal (now backend_ok) @ ''_'' @ file_name video_12MiB) (JStr ''u1'')
                  (map (\<lambda>k. (k, filter (\<lambda>c. c \<noteq> CHR 0x22) (the (etag (projr (put_response backend_ok k))))))
                     (settle_schedule backend_ok (totalChunks (file_size video_12MiB))))]"
    using commit_lists_parts_in_settle_order[OF sel backend_ok_fields(2) session_u1 urls_backend_ok puts]
    by (rule conjunct1)
  then have "filter is_complete (requests (uploadFile backend_ok (handleFile video_12MiB idle)))
       = [CompleteRequest ''1700000000000_talk.mp4'' (JStr ''u1'')
            [(3, ''tag3''), (2, ''tag2''), (1, ''tag1'')]]"
    by (simp add: video_fields chunk_counts backend_ok_fields schedules_backend_ok decimal_small
          chunk_plan_12MiB_Suc part_requests_def accepted_videos selected_video)
  with sel n show ?thesis
    by (simp add: backend_ok_fields part_result_backend_ok schedules_backend_ok)
qed

section \<open>The progress value\<close>




section \<open>A failed part\<close>

text \<open>
  \<^bold>\<open>C4\<close>, as stated, does not hold: the error message need not name the part. In an upload
  of two parts, the \<open>PUT\<close> of part 1 answers with a status that is not 2xx, and the \<open>PUT\<close> of
  part 2 is rejected by the network before that. \<open>Promise.all\<close> rejects with the first
  rejection it sees, and the message shown is the network's, which names no part.
\<close>

theorem error_names_no_part:
  "put_response backend_two_failures 1 = Inr \<lparr>ok = False, etag = None\<rparr>
   \<and> totalChunks (file_size two_part_video) = 2
   \<and> error (uploadFile backend_two_failures (handleFile two_part_video idle)) = Some ''Failed to fetch''
   \<and> error (uploadFile backend_two_failures (handleFile two_part_video idle))
        \<noteq> Some ''Upload of part 1 failed.''"
  by (simp add: run_two_failures backend_two_failures_fields video_fields chunk_counts)

text \<open>
  \<^bold>\<open>C4\<close>, as the code has it. When the \<open>PUT\<close> of some part \<open>k\<close> of the plan answers with a
  status that is not 2xx, or with a 2xx status and no \<open>ETag\<close>, then \<open>uploadFile\<close> ends with
  an error set, issues no commit request and starts no task. When moreover the session is
  initialized, every part URL is obtained and every \<open>PUT\<close> gets an answer, the error
  message names a part \<open>j\<close> whose answer was such a failure (the first whose rejection reaches
  \<open>Promise.all\<close>; it is \<open>k\<close> when \<open>k\<close> is the only one): \<open>Upload of part j failed.\<close> for a
  status that is not 2xx, \<open>ETag not found for part j.\<close> otherwise.
\<close>

theorem failed_part_aborts_upload:
  fixes e :: env and st :: state and f :: File
  defines "n \<equiv> totalChunks (file_size f)"
  assumes sel: "file_sel st = Some f"
    and k: "k \<in> {1..n}"
    and resp: "put_response e k = Inr res"
    and bad: "\<not> ok res \<or> etag res = None \<or> etag res = Some []"
  shows "(\<exists>more. requests (uploadFile e st) = requests st @ more \<and> (\<forall>r\<in>set more. \<not> is_complete r))
       \<and> error (uploadFile e st) \<noteq> None
       \<and> \<not> uploading (uploadFile e st)
       \<and> taskId (uploadFile e st) = taskId st
       \<and> polling (uploadFile e st) = polling st
       \<and> ((\<exists>body uploadId. init_response e = Inr body \<and> get_prop body ''uploadId'' = Inr uploadId
              \<and> truthy uploadId)
          \<and> (\<forall>j\<in>{1..n}. \<not> isl (url_of e j))
          \<and> (\<forall>j\<in>{1..n}. \<not> isl (put_response e j))
          \<longrightarrow> (\<exists>j\<in>{1..n}. \<exists>res'. put_response e j = Inr res'
                 \<and> (\<not> ok res' \<or> etag res' = None \<or> etag res' = Some [])
                 \<and> error (uploadFile e st)
                      = Some (if \<not> ok res' then ''Upload of part '' @ decimal j @ '' failed.''
                              else ''ETag not found for part '' @ decimal j @ ''.'')))"
proof -
  let ?st0 = "st\<lparr>uploading := True, error := None, progress := 0\<rparr>"
  let ?key = "decimal (now e) @ ''_'' @ file_name f"
  have failed: "isl (part_result e k)"
    using resp bad by (auto simp: part_result_failed)
  from upload_try_aborts[OF k[unfolded n_def] failed, of ?st0] obtain st' ex more where
    tried: "upload_try e f ?st0 = (st', Some ex)"
    and more: "requests st' = requests st @ more" "\<forall>r\<in>set more. \<not> is_complete r"
    and same: "taskId st' = taskId st" "polling st' = polling st"
    by auto
  have run: "uploadFile e st = catch_finally (st', Some ex)"
    using sel tried by (simp add: uploadFile_def)
  have general: "(\<exists>more. requests (uploadFile e st) = requests st @ more \<and> (\<forall>r\<in>set more. \<not> is_complete r))
       \<and> error (uploadFile e st) \<noteq> None
       \<and> \<not> uploading (uploadFile e st)
       \<and> taskId (uploadFile e st) = taskId st
       \<and> polling (uploadFile e st) = polling st"
    using more same by (auto simp: run)
  have named: "\<exists>j\<in>{1..n}. \<exists>res'. put_response e j = Inr res'
                 \<and> (\<not> ok res' \<or> etag res' = None \<or> etag res' = Some [])
                 \<and> error (uploadFile e st)
                      = Some (if \<not> ok res' then ''Upload of part '' @ decimal j @ '' failed.''
                              else ''ETag not found for part '' @ decimal j @ ''.'')"
    if init: "init_response e = Inr body" "get_prop body ''uploadId'' = Inr uploadId" "truthy uploadId"
      and urls: "\<forall>j\<in>{1..n}. \<not> isl (url_of e j)"
      and puts: "\<forall>j\<in>{1..n}. \<not> isl (put_response e j)"
    for body uploadId
  proof -
    let ?st1 = "?st0\<lparr>requests := requests ?st0 @ [InitRequest ?key]\<rparr>"
    obtain st2 parts where chunks: "upload_chunks e f n ?key uploadId ?st1 = (st2, parts, promise_all e n)"
      using upload_chunks_ok[OF urls, of f ?key uploadId ?st1] by simp
    have "promise_all e n \<noteq> None"
      using k failed by (auto simp: promise_all_None)
    then obtain ex' where joined: "promise_all e n = Some ex'"
      by auto
    then have "upload_try e f ?st0 = (st2, Some ex')"
      using chunks by (simp add: upload_try_started[OF init] n_def)
    with tried have ex': "ex' = ex"
      by simp
    from promise_all_Some[OF joined] obtain j where j: "j \<in> {1..n}" and rejected: "part_result e j = Inl ex"
      using ex' by auto
    from puts j have "\<not> isl (put_response e j)"
      by (rule bspec)
    then obtain res' where res': "put_response e j = Inr res'"
      by (cases "put_response e j") simp_all
    from rejected res' have cause: "\<not> ok res' \<or> etag res' = None \<or> etag res' = Some []"
      and ex: "ex = Error (if \<not> ok res' then ''Upload of part '' @ decimal j @ '' failed.''
                              else ''ETag not found for part '' @ decimal j @ ''.'')"
      by (auto simp: part_result_failed split: if_splits)
    have "error (uploadFile e st)
        = Some (if \<not> ok res' then ''Upload of part '' @ decimal j @ '' failed.''
                else ''ETag not found for part '' @ decimal j @ ''.'')"
      by (simp add: run ex)
    with j res' cause show ?thesis
      by blast
  qed
  from general named show ?thesis
    by blast
qed

text \<open>An instance: part 2 of the 12 MiB upload comes back without an \<open>ETag\<close>.\<close>

theorem failed_part_aborts_upload_witness:
  "file_sel (handleFile video_12MiB idle) = Some video_12MiB
   \<and> totalChunks (file_size video_12MiB) = 3
   \<and> put_response backend_no_etag 2 = Inr \<lparr>ok = True, etag = None\<rparr>
   \<and> error (uploadFile backend_no_etag (handleFile video_12MiB idle)) = Some ''ETag not found for part 2.''
   \<and> filter is_complete (requests (uploadFile backend_no_etag (handleFile video_12MiB idle))) = []
   \<and> taskId (uploadFile backend_no_etag (handleFile video_12MiB idle)) = JNull"
proof -
  have sel: "file_sel (handleFile video_12MiB idle) = Some video_12MiB"
    by (simp add: accepted_videos)
  have n: "totalChunks (file_size video_12MiB) = 3"
    by (simp add: video_fields chunk_counts)
  have k: "2 \<in> {1..totalChunks (file_size video_12MiB)}"
    by (simp add: n)
  have bad: "\<not> ok \<lparr>ok = True, etag = None\<rparr> \<or> etag \<lparr>ok = True, etag = None\<rparr> = None
      \<or> etag \<lparr>ok = True, etag = None\<rparr> = Some []"
    by simp
  from failed_part_aborts_upload[OF sel k backend_no_etag_fields(5) bad]
  have "error (uploadFile backend_no_etag (handleFile video_12MiB idle)) \<noteq> None"
    by simp
  then show ?thesis
    using sel n by (simp add: run_12MiB_no_etag backend_no_etag_fields)
qed

section \<open>The poller\<close>

text \<open>
  \<^bold>\<open>C10.\<close> For a status response whose \<open>state\<close> is \<open>PROGRESS\<close> or \<open>FAILURE\<close>: when its
  \<open>info\<close> is absent or \<open>null\<close>, reading \<open>data.info.status\<close> throws a \<open>TypeError\<close>; the
  callback sets no status and does not clear the interval. When \<open>info\<close> is present, the
  callback runs to its end, and the fallback text stands in exactly when
  \<open>info.status\<close> is missing or falsy.
\<close>

theorem status_without_info:
  assumes "get_prop data ''state'' = Inr s"
    and "s = JStr ''PROGRESS'' \<or> s = JStr ''FAILURE''"
    and "get_prop data ''info'' = Inr info"
  shows "(info = JUndefined \<or> info = JNull \<longrightarrow>
            on_status data st = Inl TypeError
          \<and> (polling st \<longrightarrow>
                tick (Inr data) st = st\<lparr>requests := requests st @ [StatusRequest (taskId st)]\<rparr>))
       \<and> (info \<noteq> JUndefined \<and> info \<noteq> JNull \<longrightarrow>
            (\<exists>status. get_prop info ''status'' = Inr status
               \<and> on_status data st =
                   Inr (if s = JStr ''PROGRESS''
                        then st\<lparr>processingStatus := or_else status (JStr ''Processing...'')\<rparr>
                        else st\<lparr>processingStatus :=
                                 JStr (''Processing failed: ''
                                       @ to_string (or_else status (JStr ''Unknown error''))),
                               polling := False\<rparr>)))"
proof (intro conjI impI)
  assume absent: "info = JUndefined \<or> info = JNull"
  then have "get_prop info ''status'' = Inl TypeError"
    by (rule get_prop_absent_cases)
  with assms show thrown: "on_status data st = Inl TypeError" for st
    by (auto simp: on_status_def)
  assume "polling st"
  with thrown show "tick (Inr data) st = st\<lparr>requests := requests st @ [StatusRequest (taskId st)]\<rparr>"
    by (simp add: tick_def)
next
  assume "info \<noteq> JUndefined \<and> info \<noteq> JNull"
  then obtain status where status: "get_prop info ''status'' = Inr status"
    using get_prop_present[of info "''status''"] by blast
  with assms have "on_status data st =
                   Inr (if s = JStr ''PROGRESS''
                        then st\<lparr>processingStatus := or_else status (JStr ''Processing...'')\<rparr>
                        else st\<lparr>processingStatus :=
                                 JStr (''Processing failed: ''
                                       @ to_string (or_else status (JStr ''Unknown error''))),
                               polling := False\<rparr>)"
    by (auto simp: on_status_def)
  with status show "\<exists>status. get_prop info ''status'' = Inr status
               \<and> on_status data st =
                   Inr (if s = JStr ''PROGRESS''
                        then st\<lparr>processingStatus := or_else status (JStr ''Processing...'')\<rparr>
                        else st\<lparr>processingStatus :=
                                 JStr (''Processing failed: ''
                                       @ to_string (or_else status (JStr ''Unknown error''))),
                               polling := False\<rparr>)"
    by blast
qed

text \<open>An instance: the response \<open>{state: "FAILURE"}\<close>.\<close>

theorem status_without_info_witness:
  "get_prop failure_without_info ''state'' = Inr (JStr ''FAILURE'')
   \<and> get_prop failure_without_info ''info'' = Inr JUndefined
   \<and> on_status failure_without_info awaiting = Inl TypeError
   \<and> polling awaiting
   \<and> tick (Inr failure_without_info) awaiting
        = awaiting\<lparr>requests := requests awaiting @ [StatusRequest (taskId awaiting)]\<rparr>"
proof -
  have a: "get_prop failure_without_info ''state'' = Inr (JStr ''FAILURE'')"
    and b: "get_prop failure_without_info ''info'' = Inr JUndefined"
    by (simp_all add: failure_without_info_def)
  have p: "polling awaiting"
    by (simp add: awaiting_def)
  from status_without_info[OF a _ b, of awaiting] a b p show ?thesis
    by simp
qed

text \<open>
  \<^bold>\<open>C9\<close>, as stated, does not hold: an observation in state \<open>QUEUED\<close> is not surfaced. The
  callback has no branch for it, and the status shown stays what it was.
\<close>

theorem queued_observation_not_surfaced:
  "polling awaiting
   \<and> get_prop queued_observation ''state'' = Inr (JStr ''QUEUED'')
   \<and> get_prop queued_observation ''info'' = Inr (JObj [(''status'', JStr ''Waiting in queue'')])
   \<and> processingStatus (tick (Inr queued_observation) awaiting)
        = JStr ''Upload complete. Waiting for processing to start...''
   \<and> processingStatus (tick (Inr queued_observation) awaiting) \<noteq> JStr ''Waiting in queue''"
  by (simp add: tick_def on_status_def queued_observation_def awaiting_def)

text \<open>
  \<^bold>\<open>C9\<close>, as the code has it. While the interval runs, a \<open>PROGRESS\<close> observation with an
  \<open>info\<close> object makes the poller show the detail \<open>info.status\<close>, or \<open>Processing...\<close> when
  there is none. An observation in any state other than \<open>PROGRESS\<close>, \<open>SUCCESS\<close> and
  \<open>FAILURE\<close>, such as \<open>QUEUED\<close>, changes nothing but the list of queries issued.
\<close>

theorem status_surfaced_on_progress_only:
  assumes "polling st" and "get_prop data ''state'' = Inr s"
  shows "(s = JStr ''PROGRESS'' \<longrightarrow>
            (\<forall>info status. get_prop data ''info'' = Inr info \<longrightarrow> get_prop info ''status'' = Inr status \<longrightarrow>
               tick (Inr data) st =
                 st\<lparr>requests := requests st @ [StatusRequest (taskId st)],
                    processingStatus := or_else status (JStr ''Processing...'')\<rparr>))
       \<and> (s \<noteq> JStr ''PROGRESS'' \<and> s \<noteq> JStr ''SUCCESS'' \<and> s \<noteq> JStr ''FAILURE'' \<longrightarrow>
            tick (Inr data) st = st\<lparr>requests := requests st @ [StatusRequest (taskId st)]\<rparr>)"
  using assms by (simp add: tick_def on_status_def)

text \<open>An instance: a \<open>PROGRESS\<close> observation is shown, a \<open>QUEUED\<close> one is not.\<close>

theorem status_surfaced_on_progress_only_witness:
  "polling awaiting
   \<and> get_prop progress_observation ''state'' = Inr (JStr ''PROGRESS'')
   \<and> processingStatus (tick (Inr progress_observation) awaiting) = JStr ''Transcribing''
   \<and> get_prop queued_observation ''state'' = Inr (JStr ''QUEUED'')
   \<and> tick (Inr queued_observation) awaiting
        = awaiting\<lparr>requests := requests awaiting @ [StatusRequest (taskId awaiting)]\<rparr>"
proof -
  have p: "polling awaiting"
    by (simp add: awaiting_def)
  have s1: "get_prop progress_observation ''state'' = Inr (JStr ''PROGRESS'')"
    and i1: "get_prop progress_observation ''info'' = Inr (JObj [(''status'', JStr ''Transcribing'')])"
    and d1: "get_prop (JObj [(''status'', JStr ''Transcribing'')]) ''status'' = Inr (JStr ''Transcribing'')"
    by (simp_all add: progress_observation_def)
  have s2: "get_prop queued_observation ''state'' = Inr (JStr ''QUEUED'')"
    by (simp add: queued_observation_def)
  from status_surfaced_on_progress_only[OF p s1] i1 d1
  have "processingStatus (tick (Inr progress_observation) awaiting) = JStr ''Transcribing''"
    by (simp add: or_else_def)
  moreover from status_surfaced_on_progress_only[OF p s2]
  have "tick (Inr queued_observation) awaiting
        = awaiting\<lparr>requests := requests awaiting @ [StatusRequest (taskId awaiting)]\<rparr>"
    by simp
  ultimately show ?thesis
    using p s1 s2 by simp
qed

text \<open>
  \<^bold>\<open>C5\<close> fails on the response \<open>{state: "FAILURE"}\<close>, which has no \<open>info\<close>: the callback
  throws before \<open>setProcessingStatus\<close> and \<open>clearInterval\<close>, so neither the detail nor the
  fallback \<open>Unknown error\<close> is shown, and the next tick queries again. (On \<open>SUCCESS\<close>, and on
  \<open>FAILURE\<close> with an \<open>info\<close> object, the poller shows the status and stops: see
  \<open>poller_stops_after_terminal_observation\<close>.)
\<close>

theorem failure_without_info_keeps_polling:
  "poll [Inr failure_without_info, Inr failure_without_info] awaiting
     = awaiting\<lparr>requests := [StatusRequest (JStr ''t1''), StatusRequest (JStr ''t1'')]\<rparr>
   \<and> polling (poll [Inr failure_without_info] awaiting)
   \<and> processingStatus (poll [Inr failure_without_info] awaiting)
        = JStr ''Upload complete. Waiting for processing to start...''"
  by (simp add: tick_def on_status_def failure_without_info_def awaiting_def)

end
